theory Spec2Isabelle
  imports Main "HOL-Library.AList" "HOL-Library.Log_Nat"
begin

section \<open>The AWS cost exporter (aws-cost/main.py)\<close>

text \<open>
  A shallow embedding of the collector of \<^verbatim>\<open>aws-cost/main.py\<close>. Python values are
  modelled as follows.
  \<^item> A \<^verbatim>\<open>str\<close> is a \<^typ>\<open>string\<close>; a \<^typ>\<open>char\<close> stands for a code point below 256.
  \<^item> An \<^verbatim>\<open>int\<close> is an \<^typ>\<open>int\<close>.
  \<^item> A \<^verbatim>\<open>dict\<close> whose iteration order is observed is an association list kept in
    insertion order.
  \<^item> An exception is a value of the type \<open>error\<close>; a function that may raise returns
    \<open>error + 'a\<close>, with \<open>Inl\<close> for the exception.
\<close>

subsection \<open>Exceptions\<close>

datatype error =
    KeyError string
  | IndexError
  | ValueError
  | OverflowError
  | ClientError string
  | OSError

subsection \<open>Strings: \<^verbatim>\<open>str.split()\<close> and \<^verbatim>\<open>str.join\<close>\<close>

text \<open>
  \<^verbatim>\<open>str.isspace\<close> on one character. Below 256 the whitespace code points are
  9 to 13, 28 to 32, 133 and 160.
\<close>

definition isspace :: "char \<Rightarrow> bool" where
  "isspace c = (of_char c \<in> {9, 10, 11, 12, 13, 28, 29, 30, 31, 32, 133, 160 :: nat})"

text \<open>The decimal digits \<^verbatim>\<open>0\<close> to \<^verbatim>\<open>9\<close> and their values.\<close>

definition is_digit :: "char \<Rightarrow> bool" where
  "is_digit c = (48 \<le> (of_char c :: nat) \<and> (of_char c :: nat) \<le> 57)"

definition digit_val :: "char \<Rightarrow> nat" where
  "digit_val c = of_char c - 48"

text \<open>
  \<^verbatim>\<open>s.split()\<close> with no separator: runs of whitespace separate the words, and no
  empty word is produced. The first argument is the word being read.
\<close>

fun split_from :: "string \<Rightarrow> string \<Rightarrow> string list" where
  "split_from cur [] = (if cur = [] then [] else [cur])"
| "split_from cur (c # cs) =
     (if isspace c then (if cur = [] then split_from [] cs else cur # split_from [] cs)
      else split_from (cur @ [c]) cs)"

definition split :: "string \<Rightarrow> string list" where
  "split s = split_from [] s"

text \<open>\<^verbatim>\<open>sep.join(words)\<close>.\<close>

fun join :: "string \<Rightarrow> string list \<Rightarrow> string" where
  "join sep [] = []"
| "join sep [w] = w"
| "join sep (w # v # ws) = w @ sep @ join sep (v # ws)"

text \<open>Line 124: \<^verbatim>\<open>"_".join(r["Keys"][0].split())\<close>, as a function of the key.\<close>

definition normalize_service :: "string \<Rightarrow> string" where
  "normalize_service k = join ''_'' (split k)"

subsection \<open>Dates: \<^verbatim>\<open>datetime\<close>, \<^verbatim>\<open>timedelta(days=1)\<close> and \<^verbatim>\<open>strftime\<close>\<close>

text \<open>
  A naive \<^verbatim>\<open>datetime\<close>, as \<^verbatim>\<open>datetime.utcnow()\<close> returns it. The clock itself is a
  parameter of the model: \<open>__get_time_range\<close> below takes the value that
  \<^verbatim>\<open>utcnow()\<close> returned.
\<close>

record datetime =
  year :: int
  month :: int
  day :: int
  hour :: int
  minute :: int
  second :: int
  microsecond :: int

definition is_leap :: "int \<Rightarrow> bool" where
  "is_leap y = (y mod 4 = 0 \<and> (y mod 100 \<noteq> 0 \<or> y mod 400 = 0))"

definition days_in_month :: "int \<Rightarrow> int \<Rightarrow> int" where
  "days_in_month y m =
     (if m = 2 then (if is_leap y then 29 else 28)
      else if m = 4 \<or> m = 6 \<or> m = 9 \<or> m = 11 then 30 else 31)"

text \<open>
  The proleptic Gregorian ordinal of a date (\<^verbatim>\<open>toordinal\<close>): day 1 is 0001-01-01.
  The difference of two \<^verbatim>\<open>datetime\<close> values counts days by this ordinal.
\<close>

definition days_before_year :: "int \<Rightarrow> int" where
  "days_before_year y = (y - 1) * 365 + (y - 1) div 4 - (y - 1) div 100 + (y - 1) div 400"

definition days_before_month :: "int \<Rightarrow> int \<Rightarrow> int" where
  "days_before_month y m =
     (if m = 1 then 0 else if m = 2 then 31 else if m = 3 then 59 else if m = 4 then 90
      else if m = 5 then 120 else if m = 6 then 151 else if m = 7 then 181
      else if m = 8 then 212 else if m = 9 then 243 else if m = 10 then 273
      else if m = 11 then 304 else 334)
     + (if 2 < m \<and> is_leap y then 1 else 0)"

definition toordinal :: "datetime \<Rightarrow> int" where
  "toordinal t = days_before_year (year t) + days_before_month (year t) (month t) + day t"

text \<open>The values a \<^verbatim>\<open>datetime\<close> object can hold (years 1 to 9999).\<close>

definition valid_date :: "int \<Rightarrow> int \<Rightarrow> int \<Rightarrow> bool" where
  "valid_date y m d = (1 \<le> y \<and> y \<le> 9999 \<and> 1 \<le> m \<and> m \<le> 12 \<and> 1 \<le> d \<and> d \<le> days_in_month y m)"

definition valid_datetime :: "datetime \<Rightarrow> bool" where
  "valid_datetime t =
     (valid_date (year t) (month t) (day t) \<and> 0 \<le> hour t \<and> hour t < 24
      \<and> 0 \<le> minute t \<and> minute t < 60 \<and> 0 \<le> second t \<and> second t < 60
      \<and> 0 \<le> microsecond t \<and> microsecond t < 1000000)"

text \<open>
  The constructor \<^verbatim>\<open>datetime(year=y, month=m, day=d)\<close>: the time of day is zero, and
  fields out of range raise \<^verbatim>\<open>ValueError\<close>.
\<close>

definition datetime_ymd :: "int \<Rightarrow> int \<Rightarrow> int \<Rightarrow> error + datetime" where
  "datetime_ymd y m d =
     (if valid_date y m d
      then Inr \<lparr>year = y, month = m, day = d, hour = 0, minute = 0, second = 0, microsecond = 0\<rparr>
      else Inl ValueError)"

text \<open>
  \<^verbatim>\<open>t - timedelta(days=1)\<close>. The day is decremented; day 0 is carried into the previous
  month, and month 0 into December of the previous year. A result before year 1
  raises \<^verbatim>\<open>OverflowError\<close>.
\<close>

definition minus_one_day :: "datetime \<Rightarrow> error + datetime" where
  "minus_one_day t =
     (let (y, m, d) =
        (if day t - 1 = 0
         then (if 0 < month t - 1
               then (year t, month t - 1, days_in_month (year t) (month t - 1))
               else (year t - 1, 12, 31))
         else (year t, month t, day t - 1))
      in if y < 1 \<or> 9999 < y then Inl OverflowError
         else Inr (t\<lparr>year := y, month := m, day := d\<rparr>))"

text \<open>
  \<^verbatim>\<open>t.strftime("%Y-%m-%d")\<close>. Month and day are two digits. The year is written in
  decimal; from year 1000 on that is four digits on every platform (below 1000 the C
  library decides about padding, and the statements below do not depend on it).
\<close>

definition digit_char :: "nat \<Rightarrow> char" where
  "digit_char n = char_of (48 + n)"

fun show_nat :: "nat \<Rightarrow> string" where
  "show_nat n = (if n < 10 then [digit_char n] else show_nat (n div 10) @ [digit_char (n mod 10)])"

declare show_nat.simps [simp del]

definition two_digits :: "nat \<Rightarrow> string" where
  "two_digits n = [digit_char (n div 10 mod 10), digit_char (n mod 10)]"

definition strftime_Ymd :: "datetime \<Rightarrow> string" where
  "strftime_Ymd t =
     show_nat (nat (year t)) @ ''-'' @ two_digits (nat (month t)) @ ''-'' @ two_digits (nat (day t))"

text \<open>The dict \<^verbatim>\<open>{"Start": start, "End": end}\<close> of line 109.\<close>

record time_period =
  Start :: string
  End :: string

text \<open>
  \<open>__get_time_range\<close> (lines 100 to 109), as a function of the clock reading \<open>now\<close>.
  \<open>window_bounds\<close> is lines 103 and 104, the two \<^verbatim>\<open>datetime\<close> values before they are
  formatted; \<open>get_time_range\<close> formats them (lines 106 to 109).
\<close>

definition window_bounds :: "datetime \<Rightarrow> error + datetime \<times> datetime" where
  "window_bounds now =
     (case datetime_ymd (year now) (month now) (day now) of
        Inl e \<Rightarrow> Inl e
      | Inr end_t \<Rightarrow>
          (case minus_one_day end_t of
             Inl e \<Rightarrow> Inl e
           | Inr start_t \<Rightarrow> Inr (start_t, end_t)))"

definition get_time_range :: "datetime \<Rightarrow> error + time_period" where
  "get_time_range now =
     (case window_bounds now of
        Inl e \<Rightarrow> Inl e
      | Inr (start_t, end_t) \<Rightarrow> Inr \<lparr>Start = strftime_Ymd start_t, End = strftime_Ymd end_t\<rparr>)"

subsection \<open>Notions used to state the claims about the window\<close>

text \<open>
  These definitions follow the specification's words, not the source: a reader of
  \<^verbatim>\<open>YYYY-MM-DD\<close> (four digits, a dash, two digits, a dash, two digits), truncation of
  an instant to midnight, and being at midnight.
\<close>

fun read_Ymd :: "string \<Rightarrow> (int \<times> int \<times> int) option" where
  "read_Ymd [y1, y2, y3, y4, s1, m1, m2, s2, d1, d2] =
     (if s1 = CHR ''-'' \<and> s2 = CHR ''-'' \<and> list_all is_digit [y1, y2, y3, y4, m1, m2, d1, d2]
      then Some (int (1000 * digit_val y1 + 100 * digit_val y2 + 10 * digit_val y3 + digit_val y4),
                 int (10 * digit_val m1 + digit_val m2), int (10 * digit_val d1 + digit_val d2))
      else None)"
| "read_Ymd _ = None"

definition midnight :: "datetime \<Rightarrow> datetime" where
  "midnight t = t\<lparr>hour := 0, minute := 0, second := 0, microsecond := 0\<rparr>"

definition at_midnight :: "datetime \<Rightarrow> bool" where
  "at_midnight t = (hour t = 0 \<and> minute t = 0 \<and> second t = 0 \<and> microsecond t = 0)"

text \<open>An instant used in the examples: 2024-03-01 13:05:09.000017 UTC.\<close>

definition example_now :: datetime where
  "example_now = \<lparr>year = 2024, month = 3, day = 1, hour = 13, minute = 5, second = 9,
     microsecond = 17\<rparr>"

subsection \<open>Floating point: \<^verbatim>\<open>float(str)\<close>, \<^verbatim>\<open>+=\<close> and \<^verbatim>\<open>math.ceil\<close>\<close>

text \<open>
  A Python \<^verbatim>\<open>float\<close> is an IEEE 754 binary64 number. A finite one is modelled by the
  rational number it denotes; the two infinities and NaN are separate values. Negative
  zero is identified with zero: \<^verbatim>\<open>ceil\<close> maps both to the integer 0, and a sum that
  starts from \<^verbatim>\<open>0.0\<close> (as \<^verbatim>\<open>Total\<close> does on line 120) is never negative zero.
\<close>

datatype pyfloat = Finite rat | PosInf | NegInf | NaN

text \<open>
  Rounding a rational to the nearest binary64 value, ties to even. The exponent \<open>e\<close>
  of the last place is that of the binade of \<open>q\<close> (53 significant bits) and at least
  \<open>-1074\<close> (subnormal numbers); a result of magnitude \<open>2 ^ 1024\<close> overflows to
  infinity.
\<close>

definition round_half_even :: "rat \<Rightarrow> int" where
  "round_half_even q =
     (let f = \<lfloor>q\<rfloor>; r = q - of_int f
      in if r < 1 / 2 then f else if 1 / 2 < r then f + 1 else if even f then f else f + 1)"

definition floor_log2 :: "rat \<Rightarrow> int" where
  "floor_log2 q =
     (let (a, b) = quotient_of q; k = bitlen a - bitlen b
      in if 2 powi k \<le> q then k else k - 1)"

definition round_double :: "rat \<Rightarrow> pyfloat" where
  "round_double q =
     (if q = 0 then Finite 0
      else let e = max (floor_log2 \<bar>q\<bar> - 52) (- 1074);
               r = of_int (round_half_even (q / 2 powi e)) * 2 powi e
           in if 2 ^ 1024 \<le> \<bar>r\<bar> then (if 0 < q then PosInf else NegInf) else Finite r)"

text \<open>\<^verbatim>\<open>a + b\<close> on floats: the exact sum, rounded.\<close>

fun float_add :: "pyfloat \<Rightarrow> pyfloat \<Rightarrow> pyfloat" where
  "float_add NaN _ = NaN"
| "float_add _ NaN = NaN"
| "float_add PosInf NegInf = NaN"
| "float_add NegInf PosInf = NaN"
| "float_add PosInf _ = PosInf"
| "float_add _ PosInf = PosInf"
| "float_add NegInf _ = NegInf"
| "float_add _ NegInf = NegInf"
| "float_add (Finite a) (Finite b) = round_double (a + b)"

text \<open>
  \<^verbatim>\<open>math.ceil(x)\<close>: the smallest integer not below \<open>x\<close>; \<^verbatim>\<open>ValueError\<close> on NaN and
  \<^verbatim>\<open>OverflowError\<close> on an infinity.
\<close>

fun ceil :: "pyfloat \<Rightarrow> error + int" where
  "ceil (Finite q) = Inr \<lceil>q\<rceil>"
| "ceil NaN = Inl ValueError"
| "ceil PosInf = Inl OverflowError"
| "ceil NegInf = Inl OverflowError"

text \<open>
  \<^verbatim>\<open>float(s)\<close> on a string. Whitespace around the number is dropped; here the
  whitespace is not that of \<^verbatim>\<open>str.isspace\<close>: of the code points below 128 only 9 to
  13 and 32 are dropped (the separators 28 to 31 are not, and make the parse fail), and
  above 127 the code points 133 and 160 are. An underscore is
  allowed between two digits only and is removed. Then comes an optional sign and either
  \<^verbatim>\<open>inf\<close>, \<^verbatim>\<open>infinity\<close> or \<^verbatim>\<open>nan\<close> in any case, or a decimal number: digits with an
  optional point (at least one digit in all) and an optional exponent \<^verbatim>\<open>e\<close> or \<^verbatim>\<open>E\<close>
  with an optional sign and at least one digit. The value is rounded correctly. Anything
  else raises \<^verbatim>\<open>ValueError\<close>.
\<close>

definition float_space :: "char \<Rightarrow> bool" where
  "float_space c = (of_char c \<in> {9, 10, 11, 12, 13, 32, 133, 160 :: nat})"

definition strip :: "string \<Rightarrow> string" where
  "strip s = rev (dropWhile float_space (rev (dropWhile float_space s)))"

fun strip_underscores :: "char \<Rightarrow> string \<Rightarrow> string option" where
  "strip_underscores prev [] = (if prev = CHR ''_'' then None else Some [])"
| "strip_underscores prev (c # cs) =
     (if c = CHR ''_'' then (if is_digit prev then strip_underscores c cs else None)
      else if prev = CHR ''_'' \<and> \<not> is_digit c then None
      else map_option ((#) c) (strip_underscores c cs))"

definition take_sign :: "string \<Rightarrow> bool \<times> string" where
  "take_sign s =
     (case s of
        [] \<Rightarrow> (False, [])
      | c # cs \<Rightarrow> if c = CHR ''-'' then (True, cs) else if c = CHR ''+'' then (False, cs)
                  else (False, s))"

definition lower :: "char \<Rightarrow> char" where
  "lower c = (if 65 \<le> (of_char c :: nat) \<and> (of_char c :: nat) \<le> 90
              then char_of ((of_char c :: nat) + 32) else c)"

definition digits_value :: "string \<Rightarrow> nat" where
  "digits_value ds = foldl (\<lambda>n c. 10 * n + digit_val c) 0 ds"

definition scale10 :: "nat \<Rightarrow> int \<Rightarrow> rat" where
  "scale10 n k = of_nat n * 10 powi k"

definition parse_decimal :: "string \<Rightarrow> rat option" where
  "parse_decimal s =
     (let ip = takeWhile is_digit s; r1 = dropWhile is_digit s;
          (fp, r2) = (case r1 of
                        [] \<Rightarrow> ([], [])
                      | c # cs \<Rightarrow> if c = CHR ''.''
                                  then (takeWhile is_digit cs, dropWhile is_digit cs)
                                  else ([], r1))
      in if ip = [] \<and> fp = [] then None
         else (case r2 of
                 [] \<Rightarrow> Some (scale10 (digits_value (ip @ fp)) (- int (length fp)))
               | c # cs \<Rightarrow>
                   if c = CHR ''e'' \<or> c = CHR ''E''
                   then (let (neg, ds) = take_sign cs
                         in if ds = [] \<or> \<not> list_all is_digit ds then None
                            else Some (scale10 (digits_value (ip @ fp))
                                   ((if neg then - int (digits_value ds) else int (digits_value ds))
                                    - int (length fp))))
                   else None))"

definition float_of_string :: "string \<Rightarrow> error + pyfloat" where
  "float_of_string s =
     (case strip_underscores (CHR 0x00) (strip s) of
        None \<Rightarrow> Inl ValueError
      | Some u \<Rightarrow>
          (let (neg, body) = take_sign u
           in if map lower body = ''inf'' \<or> map lower body = ''infinity''
              then Inr (if neg then NegInf else PosInf)
              else if map lower body = ''nan'' then Inr NaN
              else (case parse_decimal body of
                      None \<Rightarrow> Inl ValueError
                    | Some q \<Rightarrow> Inr (round_double (if neg then - q else q)))))"

subsection \<open>The billing API: request and response of \<^verbatim>\<open>get_cost_and_usage\<close>\<close>

text \<open>
  The keyword arguments of the call on lines 112 to 118, with their names. The filter
  is passed through as configured, so its type is a parameter.
\<close>

record group_definition =
  Type :: string
  Key :: string

record 'f request =
  TimePeriod :: time_period
  Granularity :: string
  Metrics :: "string list"
  Filter :: 'f
  GroupBy :: "group_definition list"

text \<open>
  The part of the response that the collector reads:
  \<^verbatim>\<open>resp["ResultsByTime"][0]["Groups"]\<close>, and in each group \<^verbatim>\<open>r["Keys"]\<close> and
  \<^verbatim>\<open>r["Metrics"][name]["Amount"]\<close>. The dict \<^verbatim>\<open>r["Metrics"]\<close> is the field
  \<open>GroupMetrics\<close> (the field name \<open>Metrics\<close> is taken by the request), an association
  list from the metric name to its value.
\<close>

record metric_value =
  Amount :: string
  Unit :: string

record result_group =
  Keys :: "string list"
  GroupMetrics :: "(string \<times> metric_value) list"

record result_by_time =
  Groups :: "result_group list"

record response =
  ResultsByTime :: "result_by_time list"

text \<open>
  The credentials that \<^verbatim>\<open>assume_role\<close> returns, and the session that
  \<^verbatim>\<open>boto3.setup_default_session\<close> installs from them (lines 89 to 98). The client
  \<^verbatim>\<open>boto3.client("ce")\<close> works on behalf of that session; the service itself is a
  parameter of the model, a function from the session and the request to the response
  or to the exception raised.
\<close>

record credentials =
  AccessKeyId :: string
  SecretAccessKey :: string
  SessionToken :: string

record session =
  region_name :: string
  aws_access_key_id :: string
  aws_secret_access_key :: string
  aws_session_token :: string

type_synonym 'f cost_explorer = "session \<Rightarrow> 'f request \<Rightarrow> error + response"

subsection \<open>The collector object\<close>

text \<open>
  The attributes that \<open>__init__\<close> sets (lines 71 to 81). \<open>ce\<close> stands for
  \<^verbatim>\<open>self.__ce\<close>, the client bound to the session, and \<open>time_range\<close> for
  \<^verbatim>\<open>self.__time_range\<close>.
\<close>

record 'f collector =
  project :: string
  role_arn :: string
  region :: string
  ce :: session
  time_range :: time_period
  cost_type :: string
  cost_filter :: 'f

subsection \<open>\<open>__get_aws_cost\<close> (lines 111 to 132)\<close>

text \<open>The dict \<^verbatim>\<open>{"Cost": dict(), "Total": 0.0}\<close>; \<open>Cost\<close> keeps insertion order.\<close>

record cost_as_per_service =
  Cost :: "(string \<times> int) list"
  Total :: pyfloat

definition empty_costs :: cost_as_per_service where
  "empty_costs = \<lparr>Cost = [], Total = Finite 0\<rparr>"

text \<open>The request built on lines 112 to 118.\<close>

definition cost_request :: "'f collector \<Rightarrow> 'f request" where
  "cost_request self =
     \<lparr>TimePeriod = time_range self, Granularity = ''DAILY'', Metrics = [cost_type self],
      Filter = cost_filter self, GroupBy = [\<lparr>Type = ''DIMENSION'', Key = ''SERVICE''\<rparr>]\<rparr>"

text \<open>
  \<^verbatim>\<open>float(r["Metrics"]["AmortizedCost"]["Amount"])\<close>, the expression of lines 123 and
  126 to 128: the key is the literal \<^verbatim>\<open>"AmortizedCost"\<close>; a missing key raises
  \<^verbatim>\<open>KeyError\<close>.
\<close>

definition amortized_amount :: "result_group \<Rightarrow> error + pyfloat" where
  "amortized_amount r =
     (case map_of (GroupMetrics r) ''AmortizedCost'' of
        None \<Rightarrow> Inl (KeyError ''AmortizedCost'')
      | Some mv \<Rightarrow> float_of_string (Amount mv))"

text \<open>
  The body of the loop, lines 123 to 128, in the order of the source: the cost, the
  service name (\<^verbatim>\<open>r["Keys"][0]\<close> raises \<^verbatim>\<open>IndexError\<close> on an empty list), the
  assignment to the dict, and the addition to the total.
\<close>

definition loop_body :: "result_group \<Rightarrow> cost_as_per_service \<Rightarrow> error + cost_as_per_service" where
  "loop_body r acc =
     (case amortized_amount r of
        Inl e \<Rightarrow> Inl e
      | Inr amount \<Rightarrow>
          (case ceil amount of
             Inl e \<Rightarrow> Inl e
           | Inr cost \<Rightarrow>
               (case Keys r of
                  [] \<Rightarrow> Inl IndexError
                | k # _ \<Rightarrow>
                    (let service = join ''_'' (split k);
                         acc1 = acc\<lparr>Cost := AList.update service cost (Cost acc)\<rparr>
                     in case amortized_amount r of
                          Inl e \<Rightarrow> Inl e
                        | Inr amount2 \<Rightarrow>
                            Inr (acc1\<lparr>Total := float_add (Total acc1) amount2\<rparr>)))))"

fun for_groups :: "result_group list \<Rightarrow> cost_as_per_service \<Rightarrow> error + cost_as_per_service" where
  "for_groups [] acc = Inr acc"
| "for_groups (r # rs) acc =
     (case loop_body r acc of Inl e \<Rightarrow> Inl e | Inr acc1 \<Rightarrow> for_groups rs acc1)"

text \<open>
  \<open>aggregate\<close> is lines 120 to 132 on the response; \<open>get_aws_cost\<close> is the whole
  method (the \<^verbatim>\<open>print\<close> of line 130 writes to the standard output and is left out). \<^verbatim>\<open>resp["ResultsByTime"][0]\<close> raises \<^verbatim>\<open>IndexError\<close> on an empty list.
\<close>

definition aggregate :: "response \<Rightarrow> error + cost_as_per_service" where
  "aggregate resp =
     (case ResultsByTime resp of
        [] \<Rightarrow> Inl IndexError
      | r0 # _ \<Rightarrow> for_groups (Groups r0) empty_costs)"

definition get_aws_cost :: "'f cost_explorer \<Rightarrow> 'f collector \<Rightarrow> error + cost_as_per_service" where
  "get_aws_cost api self =
     (case api (ce self) (cost_request self) of
        Inl e \<Rightarrow> Inl e
      | Inr resp \<Rightarrow> aggregate resp)"

subsection \<open>\<open>collect\<close> (lines 134 to 159)\<close>

text \<open>
  A sample value is the \<^verbatim>\<open>int\<close> cost of a service or the \<^verbatim>\<open>float\<close> total. A
  \<^verbatim>\<open>Metric\<close> has a name, a documentation string, a type and its samples, in the order
  of the calls of \<^verbatim>\<open>add_sample\<close>.
\<close>

datatype number = IntValue int | FloatValue pyfloat

record sample =
  sample_name :: string
  sample_labels :: "(string \<times> string) list"
  sample_value :: number

record metric =
  metric_name :: string
  documentation :: string
  metric_typ :: string
  samples :: "sample list"

definition add_sample :: "string \<Rightarrow> number \<Rightarrow> (string \<times> string) list \<Rightarrow> metric \<Rightarrow> metric" where
  "add_sample n v ls m =
     m\<lparr>samples := samples m @ [\<lparr>sample_name = n, sample_labels = ls, sample_value = v\<rparr>]\<rparr>"

text \<open>The two kinds of sample, lines 143 to 151 and lines 153 to 157.\<close>

definition service_sample :: "'f collector \<Rightarrow> string \<times> int \<Rightarrow> metric \<Rightarrow> metric" where
  "service_sample self = (\<lambda>(service, cost).
     add_sample ''aws_cost'' (IntValue cost)
       [(''project'', project self), (''service'', service), (''type'', ''individual_service'')])"

definition total_sample :: "'f collector \<Rightarrow> pyfloat \<Rightarrow> metric \<Rightarrow> metric" where
  "total_sample self value =
     add_sample ''aws_cost'' (FloatValue value)
       [(''project'', project self), (''type'', ''daily_total'')]"

text \<open>
  \<open>collect\<close> is a generator: its result is the list of the metrics it yields, or the
  exception that ends it. The only \<^verbatim>\<open>yield\<close> is the last statement, so an exception
  leaves nothing yielded.
\<close>

definition collect :: "'f cost_explorer \<Rightarrow> 'f collector \<Rightarrow> error + metric list" where
  "collect api self =
     (let metric = \<lparr>metric_name = ''aws_project_cost_as_per_service'',
                    documentation = ''Service wise cost for an AWS account'',
                    metric_typ = ''gauge'', samples = []\<rparr>
      in case get_aws_cost api self of
           Inl e \<Rightarrow> Inl e
         | Inr costs \<Rightarrow>
             Inr [total_sample self (Total costs) (fold (service_sample self) (Cost costs) metric)])"

subsection \<open>Notions used to state the claims about aggregation\<close>

text \<open>
  These follow the specification's words. The service name of a group is its first key,
  normalised; the decimal amount of a group is the finite number that its amortized
  amount parses to. Both are undefined (\<open>None\<close>) on a group that makes the loop raise.
\<close>

definition service_name :: "result_group \<Rightarrow> string option" where
  "service_name r = (case Keys r of [] \<Rightarrow> None | k # _ \<Rightarrow> Some (normalize_service k))"

definition decimal_amount :: "result_group \<Rightarrow> rat option" where
  "decimal_amount r =
     (case amortized_amount r of Inr (Finite q) \<Rightarrow> Some q | _ \<Rightarrow> None)"

text \<open>
  The position of the last group with a given service name, in a list of names: the
  group whose value the specification says the cost map keeps.
\<close>

definition last_with :: "string list \<Rightarrow> nat \<Rightarrow> bool" where
  "last_with names i = (i < length names \<and> names ! i \<notin> set (drop (Suc i) names))"

text \<open>The labels of a sample as the specification names them.\<close>

definition service_labels :: "string \<Rightarrow> string \<Rightarrow> (string \<times> string) list" where
  "service_labels proj service =
     [(''project'', proj), (''service'', service), (''type'', ''individual_service'')]"

definition total_labels :: "string \<Rightarrow> (string \<times> string) list" where
  "total_labels proj = [(''project'', proj), (''type'', ''daily_total'')]"

subsection \<open>Construction of the collector and startup\<close>

text \<open>
  What the program does to the outside world at startup is recorded as a list of
  events, in the order of execution: the HTTP server is started on a port, the role is
  assumed (with the role ARN and the session name), the default session is installed,
  the collector is registered.
\<close>

datatype event =
    StartHttpServer int
  | AssumeRole string string
  | SetupDefaultSession session
  | Register

text \<open>
  The environment of the startup: the security token service (\<^verbatim>\<open>assume_role\<close>, by
  role ARN and session name), the clock read by \<^verbatim>\<open>datetime.utcnow()\<close> while the
  collector is constructed, the outcome of binding the HTTP port (\<open>None\<close> when the
  server starts), and the outcome of \<^verbatim>\<open>boto3.client(name)\<close> (\<open>None\<close> when the client
  is created, otherwise the exception).
\<close>

record environment =
  assume_role :: "string \<Rightarrow> string \<Rightarrow> error + credentials"
  utcnow :: datetime
  start_http_server :: "int \<Rightarrow> error option"
  client :: "string \<Rightarrow> error option"

text \<open>
  \<open>__switch_to_client_account\<close> (lines 83 to 98): one call of \<^verbatim>\<open>assume_role\<close> with
  the session name \<^verbatim>\<open>inv_master\<close>; an exception of the call leaves the method before
  the session is set up.
\<close>

definition switch_to_client_account ::
  "environment \<Rightarrow> string \<Rightarrow> string \<Rightarrow> event list \<times> (error + session)" where
  "switch_to_client_account env arn reg =
     (case assume_role env arn ''inv_master'' of
        Inl e \<Rightarrow> ([AssumeRole arn ''inv_master''], Inl e)
      | Inr acct_cred \<Rightarrow>
          (let s = \<lparr>region_name = reg, aws_access_key_id = AccessKeyId acct_cred,
                    aws_secret_access_key = SecretAccessKey acct_cred,
                    aws_session_token = SessionToken acct_cred\<rparr>
           in ([AssumeRole arn ''inv_master'', SetupDefaultSession s], Inr s)))"

text \<open>
  \<open>AWSCostMetricCollector.__init__\<close> (lines 70 to 81), with the five keyword
  arguments that \<open>main\<close> passes: the client of the token service is created (line
  74), the role is switched, the client of the billing service is created (line 77), and
  line 79 reads the clock and stores the window in the object.
\<close>

definition collector_init ::
  "environment \<Rightarrow> string \<Rightarrow> string \<Rightarrow> 'f \<Rightarrow> string \<Rightarrow> string
     \<Rightarrow> event list \<times> (error + 'f collector)" where
  "collector_init env proj arn flt ctype reg =
     (case client env ''sts'' of
        Some e \<Rightarrow> ([], Inl e)
      | None \<Rightarrow>
          (case switch_to_client_account env arn reg of
             (evs, Inl e) \<Rightarrow> (evs, Inl e)
           | (evs, Inr s) \<Rightarrow>
               (case client env ''ce'' of
                  Some e \<Rightarrow> (evs, Inl e)
                | None \<Rightarrow>
                    (case get_time_range (utcnow env) of
                       Inl e \<Rightarrow> (evs, Inl e)
                     | Inr tr \<Rightarrow>
                         (evs, Inr \<lparr>project = proj, role_arn = arn, region = reg, ce = s,
                                    time_range = tr, cost_type = ctype,
                                    cost_filter = flt\<rparr>)))))"

text \<open>
  The object \<open>config\<close> of class \<open>Constants\<close> (lines 15 to 41), as \<open>main\<close> has it on
  line 180.
\<close>

record 'f constants =
  config_scrape_interval :: int
  config_port :: int
  config_project :: string
  config_role_arn :: string
  config_region :: string
  config_cost_type :: string
  config_filter :: 'f

text \<open>
  The main program from line 183 to line 194: the HTTP server is started, then the
  collector is constructed, then it is registered. The result is the registered
  collector, or the exception that ends the process. (Reading the configuration, lines
  172 to 181, comes before; the idle loop of lines 195 and 196 follows. Registration is
  recorded as an event: what the registry of the library does with the collector is not
  part of this program.)
\<close>

definition main :: "environment \<Rightarrow> 'f constants \<Rightarrow> event list \<times> (error + 'f collector)" where
  "main env config =
     (case start_http_server env (config_port config) of
        Some e \<Rightarrow> ([], Inl e)
      | None \<Rightarrow>
          (case collector_init env (config_project config) (config_role_arn config)
                  (config_filter config) (config_cost_type config) (config_region config) of
             (evs, Inl e) \<Rightarrow> (StartHttpServer (config_port config) # evs, Inl e)
           | (evs, Inr metrics) \<Rightarrow>
               (StartHttpServer (config_port config) # evs @ [Register], Inr metrics)))"

subsection \<open>Notions used to state the claims about startup\<close>

text \<open>
  These follow the specification's words. In a list of events, the role is assumed
  before the server starts when an \<open>AssumeRole\<close> event stands before the first
  \<open>StartHttpServer\<close> event; a session is established before the server starts when a
  \<open>SetupDefaultSession\<close> event stands there.
\<close>

fun is_start :: "event \<Rightarrow> bool" where
  "is_start (StartHttpServer _) = True"
| "is_start _ = False"

fun is_assume :: "event \<Rightarrow> bool" where
  "is_assume (AssumeRole _ _) = True"
| "is_assume _ = False"

fun is_session :: "event \<Rightarrow> bool" where
  "is_session (SetupDefaultSession _) = True"
| "is_session _ = False"

definition assumed_before_server :: "event list \<Rightarrow> bool" where
  "assumed_before_server evs = list_ex is_assume (takeWhile (\<lambda>ev. \<not> is_start ev) evs)"

definition session_before_server :: "event list \<Rightarrow> bool" where
  "session_before_server evs = list_ex is_session (takeWhile (\<lambda>ev. \<not> is_start ev) evs)"

subsection \<open>Examples\<close>

text \<open>
  The configuration of the specification's end-to-end scenario, an environment in which
  the role can be assumed, one in which it cannot, and the collector that construction
  yields in the first.
\<close>

definition example_config :: "unit constants" where
  "example_config =
     \<lparr>config_scrape_interval = 86400, config_port = 4298, config_project = ''acme'',
      config_role_arn = ''arn:aws:iam::123:role/x'', config_region = ''eu-west-1'',
      config_cost_type = ''AmortizedCost'', config_filter = ()\<rparr>"

definition example_credentials :: credentials where
  "example_credentials =
     \<lparr>AccessKeyId = ''AKIA'', SecretAccessKey = ''secret'', SessionToken = ''token''\<rparr>"

definition granting_sts :: "string \<Rightarrow> string \<Rightarrow> error + credentials" where
  "granting_sts arn name = Inr example_credentials"

definition denying_sts :: "string \<Rightarrow> string \<Rightarrow> error + credentials" where
  "denying_sts arn name = Inl (ClientError ''AccessDenied'')"

definition free_port :: "int \<Rightarrow> error option" where
  "free_port p = None"

definition ready_client :: "string \<Rightarrow> error option" where
  "ready_client name = None"

definition example_env :: environment where
  "example_env = \<lparr>assume_role = granting_sts, utcnow = example_now,
     start_http_server = free_port, client = ready_client\<rparr>"

definition denied_env :: environment where
  "denied_env = \<lparr>assume_role = denying_sts, utcnow = example_now,
     start_http_server = free_port, client = ready_client\<rparr>"

definition example_session :: session where
  "example_session =
     \<lparr>region_name = ''eu-west-1'', aws_access_key_id = ''AKIA'',
      aws_secret_access_key = ''secret'', aws_session_token = ''token''\<rparr>"

definition example_collector :: "unit collector" where
  "example_collector =
     \<lparr>project = ''acme'', role_arn = ''arn:aws:iam::123:role/x'', region = ''eu-west-1'',
      ce = example_session, time_range = \<lparr>Start = ''2024-02-29'', End = ''2024-03-01''\<rparr>,
      cost_type = ''AmortizedCost'', cost_filter = ()\<rparr>"


text \<open>
  Billing services for the examples: one that is throttled, one that answers with no
  group, and one that answers as the API does, with one group per service and in each
  group the amount of every metric the request names.
\<close>

definition throttled_api :: "unit cost_explorer" where
  "throttled_api s req = Inl (ClientError ''ThrottlingException'')"

definition empty_api :: "unit cost_explorer" where
  "empty_api s req = Inr \<lparr>ResultsByTime = [\<lparr>Groups = []\<rparr>]\<rparr>"

definition priced :: "string \<Rightarrow> string \<Rightarrow> string list \<Rightarrow> result_group" where
  "priced service amount names =
     \<lparr>Keys = [service], GroupMetrics = map (\<lambda>n. (n, \<lparr>Amount = amount, Unit = ''USD''\<rparr>)) names\<rparr>"

definition two_service_api :: "unit cost_explorer" where
  "two_service_api s req =
     Inr \<lparr>ResultsByTime =
            [\<lparr>Groups = [priced ''EC2'' ''12.40'' (Metrics req), priced ''S3'' ''3.10'' (Metrics req)]\<rparr>]\<rparr>"

subsection \<open>Facts about splitting and joining\<close>

lemma split_from_no_space:
  "\<forall>c \<in> set s. \<not> isspace c \<Longrightarrow> split_from cur s = (if cur @ s = [] then [] else [cur @ s])"
  by (induction s arbitrary: cur) auto

lemma split_no_space:
  "\<forall>c \<in> set s. \<not> isspace c \<Longrightarrow> split s = (if s = [] then [] else [s])"
  using split_from_no_space [of s "[]"] by (simp add: split_def)

lemma split_from_words:
  "\<forall>c \<in> set cur. \<not> isspace c \<Longrightarrow>
   \<forall>w \<in> set (split_from cur s). w \<noteq> [] \<and> (\<forall>c \<in> set w. \<not> isspace c)"
proof (induction s arbitrary: cur)
  case Nil
  then show ?case by simp
next
  case (Cons a s)
  have empty: "\<forall>w \<in> set (split_from [] s). w \<noteq> [] \<and> (\<forall>c \<in> set w. \<not> isspace c)"
    by (rule Cons.IH) simp
  show ?case
  proof (cases "isspace a")
    case True
    with empty Cons.prems show ?thesis by simp
  next
    case False
    with Cons.prems have "\<forall>c \<in> set (cur @ [a]). \<not> isspace c" by simp
    from Cons.IH [OF this] False show ?thesis by simp
  qed
qed

lemma split_words: "w \<in> set (split s) \<Longrightarrow> w \<noteq> [] \<and> (\<forall>c \<in> set w. \<not> isspace c)"
  using split_from_words [of "[]" s] by (simp add: split_def)

lemma underscore_no_space: "\<not> isspace CHR ''_''"
  by (simp add: isspace_def)

lemma join_no_space:
  "\<forall>w \<in> set ws. \<forall>c \<in> set w. \<not> isspace c \<Longrightarrow> \<forall>c \<in> set (join ''_'' ws). \<not> isspace c"
  by (induction "''_''" ws rule: join.induct) (auto simp: underscore_no_space)

lemma normalize_service_no_space: "c \<in> set (normalize_service k) \<Longrightarrow> \<not> isspace c"
  using join_no_space [of "split k"] split_words [of _ k]
  by (auto simp: normalize_service_def)

lemma normalize_service_fixed:
  "\<forall>c \<in> set s. \<not> isspace c \<Longrightarrow> normalize_service s = s"
  by (simp add: normalize_service_def split_no_space)

subsection \<open>Claims about the service name\<close>

text \<open>
  Claim C8. Normalising a service name is idempotent: a name without whitespace is
  returned unchanged, so normalising twice is the same as normalising once, and
  \<^verbatim>\<open>"Elastic Compute Cloud"\<close> becomes \<^verbatim>\<open>"Elastic_Compute_Cloud"\<close>.
\<close>

theorem normalize_service_idempotent:
  "((\<forall>c \<in> set s. \<not> isspace c) \<longrightarrow> normalize_service s = s)
   \<and> normalize_service (normalize_service k) = normalize_service k
   \<and> normalize_service ''Elastic Compute Cloud'' = ''Elastic_Compute_Cloud''"
proof (intro conjI impI)
  assume "\<forall>c \<in> set s. \<not> isspace c"
  then show "normalize_service s = s" by (rule normalize_service_fixed)
next
  show "normalize_service (normalize_service k) = normalize_service k"
    by (rule normalize_service_fixed) (simp add: normalize_service_no_space)
next
  show "normalize_service ''Elastic Compute Cloud'' = ''Elastic_Compute_Cloud''"
    by (simp add: normalize_service_def split_def isspace_def)
qed

theorem normalize_service_idempotent_witness:
  "list_all (\<lambda>c. \<not> isspace c) ''AmazonS3'' \<and> normalize_service ''AmazonS3'' = ''AmazonS3''"
  using normalize_service_idempotent [of "''AmazonS3''"] by (simp add: isspace_def)

subsection \<open>Facts about dates\<close>

lemma digit_char_val: "n < 10 \<Longrightarrow> is_digit (digit_char n) \<and> digit_val (digit_char n) = n"
  by (simp add: is_digit_def digit_val_def digit_char_def)

lemma show_nat_small: "n < 10 \<Longrightarrow> show_nat n = [digit_char n]"
  by (subst show_nat.simps) simp

lemma show_nat_step: "10 \<le> n \<Longrightarrow> show_nat n = show_nat (n div 10) @ [digit_char (n mod 10)]"
  by (subst show_nat.simps) simp

lemma show_nat_four:
  assumes "1000 \<le> n" "n \<le> 9999"
  shows "show_nat n = [digit_char (n div 1000), digit_char (n div 100 mod 10),
                       digit_char (n div 10 mod 10), digit_char (n mod 10)]"
proof -
  have e1: "n div 10 div 10 = n div 100" and e2: "n div 100 div 10 = n div 1000"
    by (simp_all add: div_mult2_eq [symmetric])
  have r: "10 \<le> n" "10 \<le> n div 10" "10 \<le> n div 100" "n div 1000 < 10"
    using assms by simp_all
  show ?thesis
    using show_nat_step [OF r(1)] show_nat_step [OF r(2)] show_nat_step [OF r(3)]
      show_nat_small [OF r(4)]
    by (simp add: e1 e2)
qed

lemma four_digits_sum:
  "1000 * (y div 1000) + 100 * (y div 100 mod 10) + 10 * (y div 10 mod 10) + y mod 10 = (y::nat)"
proof -
  have e1: "y div 100 = y div 10 div 10" and e2: "y div 1000 = y div 10 div 10 div 10"
    by (simp_all add: div_mult2_eq [symmetric])
  have f1: "10 * (y div 10) + y mod 10 = y"
    and f2: "10 * (y div 10 div 10) + y div 10 mod 10 = y div 10"
    and f3: "10 * (y div 10 div 10 div 10) + y div 10 div 10 mod 10 = y div 10 div 10"
    by simp_all
  show ?thesis unfolding e1 e2 using f1 f2 f3 by linarith
qed

lemma two_digits_sum: "m < 100 \<Longrightarrow> 10 * (m div 10 mod 10) + m mod 10 = (m::nat)"
  by simp

lemma read_strftime:
  assumes "1000 \<le> year t" "year t \<le> 9999" "1 \<le> month t" "month t \<le> 12" "1 \<le> day t" "day t \<le> 31"
  shows "read_Ymd (strftime_Ymd t) = Some (year t, month t, day t)"
proof -
  define y where "y = nat (year t)"
  define m where "m = nat (month t)"
  define d where "d = nat (day t)"
  have y: "1000 \<le> y" "y \<le> 9999" and m: "m < 100" and d: "d < 100"
    using assms by (simp_all add: y_def m_def d_def)
  have ints: "int y = year t" "int m = month t" "int d = day t"
    using assms by (simp_all add: y_def m_def d_def)
  have dg: "y div 1000 < 10" "y div 100 mod 10 < 10" "y div 10 mod 10 < 10" "y mod 10 < 10"
    "m div 10 mod 10 < 10" "m mod 10 < 10" "d div 10 mod 10 < 10" "d mod 10 < 10"
    using y by simp_all
  have "read_Ymd (strftime_Ymd t) = Some (int y, int m, int d)"
    unfolding strftime_Ymd_def two_digits_def y_def [symmetric] m_def [symmetric] d_def [symmetric]
    by (simp add: show_nat_four [OF y] digit_char_val [OF dg(1)] digit_char_val [OF dg(2)]
        digit_char_val [OF dg(3)] digit_char_val [OF dg(4)] digit_char_val [OF dg(5)]
        digit_char_val [OF dg(6)] digit_char_val [OF dg(7)] digit_char_val [OF dg(8)]
        four_digits_sum two_digits_sum [OF m] two_digits_sum [OF d])
  then show ?thesis by (simp add: ints)
qed

lemma div_step: "0 < k \<Longrightarrow> (n::int) div k = (n - 1) div k + (if n mod k = 0 then 1 else 0)"
proof -
  assume k: "0 < k"
  define q where "q = n div k"
  define r where "r = n mod k"
  have n: "n = r + k * q" by (simp add: q_def r_def)
  have r: "0 \<le> r" "r < k" using k by (simp_all add: r_def)
  show ?thesis
  proof (cases "r = 0")
    case True
    have "n - 1 = (k - 1) + k * (q - 1)" using n True by (simp add: algebra_simps)
    then have "(n - 1) div k = ((k - 1) + k * (q - 1)) div k" by (rule arg_cong)
    also have "\<dots> = (q - 1) + (k - 1) div k" using k by (subst div_mult_self2) simp_all
    also have "\<dots> = q - 1" using k by (simp add: div_pos_pos_trivial)
    finally show ?thesis using True by (simp add: q_def r_def)
  next
    case False
    have "n - 1 = (r - 1) + k * q" using n by simp
    then have "(n - 1) div k = ((r - 1) + k * q) div k" by (rule arg_cong)
    also have "\<dots> = q + (r - 1) div k" using k by (subst div_mult_self2) simp_all
    also have "\<dots> = q" using k r False by (simp add: div_pos_pos_trivial)
    finally show ?thesis using False by (simp add: q_def r_def)
  qed
qed

lemma mod_400_100: "(n::int) mod 400 = 0 \<Longrightarrow> n mod 100 = 0"
proof -
  assume "n mod 400 = 0"
  then have "400 dvd n" by (simp add: mod_eq_0_iff_dvd)
  moreover have "(100::int) dvd 400" by simp
  ultimately have "100 dvd n" using dvd_trans by blast
  then show ?thesis by simp
qed

lemma mod_100_4: "(n::int) mod 100 = 0 \<Longrightarrow> n mod 4 = 0"
proof -
  assume "n mod 100 = 0"
  then have "100 dvd n" by (simp add: mod_eq_0_iff_dvd)
  moreover have "(4::int) dvd 100" by simp
  ultimately have "4 dvd n" using dvd_trans by blast
  then show ?thesis by simp
qed

lemma days_before_year_step:
  "days_before_year y = days_before_year (y - 1) + (if is_leap (y - 1) then 366 else 365)"
proof -
  define n where "n = y - 1"
  define p4 where "p4 = (n - 1) div 4"
  define p100 where "p100 = (n - 1) div 100"
  define p400 where "p400 = (n - 1) div 400"
  have n2: "y - 1 - 1 = n - 1" by (simp add: n_def)
  have d4: "n div 4 = p4 + (if n mod 4 = 0 then 1 else 0)"
    unfolding p4_def by (rule div_step) simp
  have d100: "n div 100 = p100 + (if n mod 100 = 0 then 1 else 0)"
    unfolding p100_def by (rule div_step) simp
  have d400: "n div 400 = p400 + (if n mod 400 = 0 then 1 else 0)"
    unfolding p400_def by (rule div_step) simp
  have i1: "n mod 400 = 0 \<Longrightarrow> n mod 100 = 0" by (rule mod_400_100)
  have i2: "n mod 100 = 0 \<Longrightarrow> n mod 4 = 0" by (rule mod_100_4)
  have cur: "days_before_year y = n * 365 + n div 4 - n div 100 + n div 400"
    unfolding days_before_year_def n_def by (rule refl)
  have prev: "days_before_year (y - 1) = (n - 1) * 365 + p4 - p100 + p400"
    unfolding days_before_year_def n2 p4_def p100_def p400_def by (rule refl)
  have leap: "is_leap (y - 1) = (n mod 4 = 0 \<and> (n mod 100 \<noteq> 0 \<or> n mod 400 = 0))"
    unfolding is_leap_def n_def by (rule refl)
  consider (a) "n mod 4 \<noteq> 0" | (b) "n mod 4 = 0" "n mod 100 \<noteq> 0"
    | (c) "n mod 100 = 0" "n mod 400 \<noteq> 0" | (d) "n mod 400 = 0"
    by argo
  then show ?thesis
  proof cases
    case a
    with i1 i2 have "n mod 100 \<noteq> 0" "n mod 400 \<noteq> 0" by argo+
    with a show ?thesis unfolding cur prev leap d4 d100 d400 by simp
  next
    case b
    with i1 have "n mod 400 \<noteq> 0" by argo
    with b show ?thesis unfolding cur prev leap d4 d100 d400 by simp
  next
    case c
    with i2 have "n mod 4 = 0" by argo
    with c show ?thesis unfolding cur prev leap d4 d100 d400 by simp
  next
    case d
    with i1 i2 have "n mod 100 = 0" "n mod 4 = 0" by argo+
    with d show ?thesis unfolding cur prev leap d4 d100 d400 by simp
  qed
qed

lemma days_before_month_step:
  "2 \<le> m \<Longrightarrow> m \<le> 12 \<Longrightarrow>
   days_before_month y m = days_before_month y (m - 1) + days_in_month y (m - 1)"
proof -
  assume "2 \<le> m" "m \<le> 12"
  then have "m = 2 \<or> m = 3 \<or> m = 4 \<or> m = 5 \<or> m = 6 \<or> m = 7 \<or> m = 8 \<or> m = 9 \<or> m = 10
             \<or> m = 11 \<or> m = 12" by presburger
  then show ?thesis
    by (elim disjE) (simp_all add: days_before_month_def days_in_month_def)
qed


lemma toordinal_update:
  "toordinal (t\<lparr>year := y, month := m, day := d\<rparr>)
     = days_before_year y + days_before_month y m + d"
  by (simp add: toordinal_def)

lemma days_in_month_bounds: "28 \<le> days_in_month y m \<and> days_in_month y m \<le> 31"
  by (simp add: days_in_month_def)

lemma minus_one_day_previous:
  assumes v: "valid_date (year t) (month t) (day t)"
    and nonmin: "(year t, month t, day t) \<noteq> (1, 1, 1)"
  shows "\<exists>y m d. minus_one_day t = Inr (t\<lparr>year := y, month := m, day := d\<rparr>)
           \<and> valid_date y m d \<and> y \<le> year t
           \<and> toordinal t - (days_before_year y + days_before_month y m + d) = 1"
proof -
  from v have y: "1 \<le> year t" "year t \<le> 9999" and m: "1 \<le> month t" "month t \<le> 12"
    and d: "1 \<le> day t" "day t \<le> days_in_month (year t) (month t)"
    by (simp_all add: valid_date_def)
  consider (same_month) "1 < day t"
    | (same_year) "day t = 1" "1 < month t"
    | (new_year) "day t = 1" "month t = 1"
    using m d by linarith
  then show ?thesis
  proof cases
    case same_month
    have "minus_one_day t = Inr (t\<lparr>year := year t, month := month t, day := day t - 1\<rparr>)"
      using same_month y by (simp add: minus_one_day_def)
    moreover have "valid_date (year t) (month t) (day t - 1)"
      using same_month y m d by (simp add: valid_date_def)
    moreover have "toordinal t
        - (days_before_year (year t) + days_before_month (year t) (month t) + (day t - 1)) = 1"
      by (simp add: toordinal_def)
    moreover have "year t \<le> year t" by simp
    ultimately show ?thesis by blast
  next
    case same_year
    let ?pm = "month t - 1"
    have "minus_one_day t
        = Inr (t\<lparr>year := year t, month := ?pm, day := days_in_month (year t) ?pm\<rparr>)"
      using same_year y by (simp add: minus_one_day_def)
    moreover have "valid_date (year t) ?pm (days_in_month (year t) ?pm)"
      using same_year y m days_in_month_bounds [of "year t" ?pm] by (simp add: valid_date_def)
    moreover have "toordinal t
        - (days_before_year (year t) + days_before_month (year t) ?pm
           + days_in_month (year t) ?pm) = 1"
      using days_before_month_step [of "month t" "year t"] same_year m
      by (simp add: toordinal_def)
    moreover have "year t \<le> year t" by simp
    ultimately show ?thesis by blast
  next
    case new_year
    with nonmin y have y1: "1 < year t" by auto
    let ?py = "year t - 1"
    have "minus_one_day t = Inr (t\<lparr>year := ?py, month := 12, day := 31\<rparr>)"
      using new_year y y1 by (simp add: minus_one_day_def)
    moreover have "valid_date ?py 12 31"
      using y y1 by (simp add: valid_date_def days_in_month_def)
    moreover have "toordinal t - (days_before_year ?py + days_before_month ?py 12 + 31) = 1"
      using days_before_year_step [of "year t"] new_year
      by (simp add: toordinal_def days_before_month_def)
    moreover have "?py \<le> year t" by simp
    ultimately show ?thesis by blast
  qed
qed

subsection \<open>Claims about the time window\<close>

text \<open>
  Claim C6. For an instant \<open>now\<close> (any \<^verbatim>\<open>datetime\<close> other than one on the first
  representable day, 0001-01-01), the computed window exists, its end is \<open>now\<close> truncated
  to midnight, its start is at midnight exactly one day earlier, and both bounds are
  rendered as \<^verbatim>\<open>YYYY-MM-DD\<close> (read back as the same year, month and day; stated for
  the four-digit years, from 1000 on).
\<close>

theorem get_time_range_yesterday:
  assumes "valid_datetime now" and "(year now, month now, day now) \<noteq> (1, 1, 1)"
  shows "\<exists>start_t end_t.
           window_bounds now = Inr (start_t, end_t)
         \<and> get_time_range now = Inr \<lparr>Start = strftime_Ymd start_t, End = strftime_Ymd end_t\<rparr>
         \<and> end_t = midnight now
         \<and> at_midnight start_t
         \<and> toordinal end_t - toordinal start_t = 1
         \<and> (1000 \<le> year start_t \<longrightarrow>
              read_Ymd (strftime_Ymd start_t) = Some (year start_t, month start_t, day start_t)
            \<and> read_Ymd (strftime_Ymd end_t) = Some (year end_t, month end_t, day end_t))"
proof -
  let ?e = "midnight now"
  from assms(1) have v: "valid_date (year now) (month now) (day now)"
    by (simp add: valid_datetime_def)
  have e: "datetime_ymd (year now) (month now) (day now) = Inr ?e"
    using v by (simp add: datetime_ymd_def midnight_def)
  have ve: "valid_date (year ?e) (month ?e) (day ?e)"
    and ne: "(year ?e, month ?e, day ?e) \<noteq> (1, 1, 1)"
    using v assms(2) by (simp_all add: midnight_def)
  from minus_one_day_previous [OF ve ne] obtain y m d
    where s: "minus_one_day ?e = Inr (?e\<lparr>year := y, month := m, day := d\<rparr>)"
      and vs: "valid_date y m d" and yle: "y \<le> year ?e"
      and one: "toordinal ?e - (days_before_year y + days_before_month y m + d) = 1"
    by blast
  let ?s = "?e\<lparr>year := y, month := m, day := d\<rparr>"
  have wb: "window_bounds now = Inr (?s, ?e)"
    by (simp add: window_bounds_def e s)
  have gr: "get_time_range now = Inr \<lparr>Start = strftime_Ymd ?s, End = strftime_Ymd ?e\<rparr>"
    by (simp add: get_time_range_def wb)
  have mid: "at_midnight ?s" by (simp add: at_midnight_def midnight_def)
  have ord: "toordinal ?e - toordinal ?s = 1"
    using one by (simp add: toordinal_update)
  have fmt: "read_Ymd (strftime_Ymd ?s) = Some (year ?s, month ?s, day ?s)
           \<and> read_Ymd (strftime_Ymd ?e) = Some (year ?e, month ?e, day ?e)"
    if big: "1000 \<le> year ?s"
  proof
    have ys: "year ?s = y" "month ?s = m" "day ?s = d" by simp_all
    from vs days_in_month_bounds [of y m]
    have b: "y \<le> 9999" "1 \<le> m" "m \<le> 12" "1 \<le> d" "d \<le> 31"
      by (simp_all add: valid_date_def)
    from big have "1000 \<le> y" by simp
    then show "read_Ymd (strftime_Ymd ?s) = Some (year ?s, month ?s, day ?s)"
      using b by (intro read_strftime) (simp_all only: ys)
    from yle big have "1000 \<le> year ?e" by simp
    moreover from v days_in_month_bounds [of "year now" "month now"]
    have "year ?e \<le> 9999" "1 \<le> month ?e" "month ?e \<le> 12" "1 \<le> day ?e" "day ?e \<le> 31"
      by (simp_all add: valid_date_def midnight_def)
    ultimately show "read_Ymd (strftime_Ymd ?e) = Some (year ?e, month ?e, day ?e)"
      by (rule read_strftime)
  qed
  show ?thesis
    using wb gr mid ord fmt by blast
qed

theorem get_time_range_yesterday_witness:
  "valid_datetime example_now
   \<and> (year example_now, month example_now, day example_now) \<noteq> (1, 1, 1)
   \<and> get_time_range example_now = Inr \<lparr>Start = ''2024-02-29'', End = ''2024-03-01''\<rparr>
   \<and> read_Ymd ''2024-02-29'' = Some (2024, 2, 29)
   \<and> read_Ymd ''2024-03-01'' = Some (2024, 3, 1)"
proof -
  have h1: "valid_datetime example_now"
    by (simp add: example_now_def valid_datetime_def valid_date_def days_in_month_def)
  have h2: "(year example_now, month example_now, day example_now) \<noteq> (1, 1, 1)"
    by (simp add: example_now_def)
  let ?s = "\<lparr>year = 2024, month = 2, day = 29, hour = 0, minute = 0, second = 0,
    microsecond = 0\<rparr>"
  let ?e = "\<lparr>year = 2024, month = 3, day = 1, hour = 0, minute = 0, second = 0,
    microsecond = 0\<rparr>"
  have wb: "window_bounds example_now = Inr (?s, ?e)"
    by (simp add: window_bounds_def datetime_ymd_def minus_one_day_def valid_date_def
        days_in_month_def is_leap_def example_now_def)
  have fs: "strftime_Ymd ?s = ''2024-02-29''" and fe: "strftime_Ymd ?e = ''2024-03-01''"
    by code_simp+
  from get_time_range_yesterday [OF h1 h2] obtain start_t end_t
    where b: "window_bounds example_now = Inr (start_t, end_t)"
      and g: "get_time_range example_now
                = Inr \<lparr>Start = strftime_Ymd start_t, End = strftime_Ymd end_t\<rparr>"
      and r: "1000 \<le> year start_t \<longrightarrow>
                read_Ymd (strftime_Ymd start_t) = Some (year start_t, month start_t, day start_t)
              \<and> read_Ymd (strftime_Ymd end_t) = Some (year end_t, month end_t, day end_t)"
    by blast
  from b wb have eq: "start_t = ?s" "end_t = ?e" by simp_all
  from r have "read_Ymd ''2024-02-29'' = Some (2024, 2, 29)
             \<and> read_Ymd ''2024-03-01'' = Some (2024, 3, 1)"
    unfolding eq fs fe by simp
  with h1 h2 g show ?thesis unfolding eq fs fe by simp
qed

section \<open>Floating point values of the examples\<close>

text \<open>
  A rational within half a unit in the last place of \<open>m * 2 ^ e\<close>, in the binade that
  \<open>e\<close> belongs to, rounds to \<open>m * 2 ^ e\<close>. The decimal amounts of the examples are
  evaluated with this characterisation.
\<close>

lemma round_half_even_eq:
  assumes "\<bar>q - of_int m\<bar> < 1 / 2"
  shows "round_half_even q = m"
proof (cases "of_int m \<le> q")
  case True
  with assms have "q < of_int m + 1 / 2" by linarith
  with True have f: "\<lfloor>q\<rfloor> = m" by (intro floor_unique) linarith+
  from assms True have "q - of_int m < 1 / 2" by linarith
  then show ?thesis by (simp add: round_half_even_def Let_def f)
next
  case False
  with assms have lo: "of_int m - 1 / 2 < q" and hi: "q < of_int m" by linarith+
  have f: "\<lfloor>q\<rfloor> = m - 1" using lo hi by (intro floor_unique; simp; linarith)
  have "1 / 2 < q - of_int (m - 1)" using lo by simp
  then show ?thesis by (simp add: round_half_even_def Let_def f)
qed

lemma two_powi_exponent_less:
  assumes "2 powi m \<le> (q::rat)" "q < 2 powi n"
  shows "m < n"
proof (rule ccontr)
  assume "\<not> m < n"
  then have "n \<le> m" by simp
  then have "(2::rat) powi n \<le> 2 powi m" by (intro power_int_increasing) simp_all
  with assms show False by linarith
qed

lemma bitlen_window:
  assumes "0 < a"
  shows "(2::rat) powi (bitlen a - 1) \<le> of_int a \<and> of_int a < (2::rat) powi (bitlen a)"
proof -
  from bitlen_bounds [OF assms]
  have lo: "2 ^ nat (bitlen a - 1) \<le> a" and hi: "a < 2 ^ nat (bitlen a)" by simp_all
  have ge1: "1 \<le> bitlen a" using assms by (simp add: bitlen_alt_def)
  have "(2::rat) powi (bitlen a - 1) = of_int (2 ^ nat (bitlen a - 1))"
    using ge1 by (simp add: power_int_def)
  also have "\<dots> \<le> of_int a" using lo by (simp only: of_int_le_iff)
  finally have l: "(2::rat) powi (bitlen a - 1) \<le> of_int a" .
  have "(of_int a :: rat) < of_int (2 ^ nat (bitlen a))" using hi by (simp only: of_int_less_iff)
  also have "\<dots> = 2 powi (bitlen a)" using ge1 by (simp add: power_int_def)
  finally show ?thesis using l by simp
qed

lemma floor_log2_eq:
  assumes pos: "0 < q" and lo: "2 powi k \<le> q" and hi: "q < 2 powi (k + 1)"
  shows "floor_log2 q = k"
proof -
  obtain a b where ab: "quotient_of q = (a, b)" by (cases "quotient_of q")
  have b: "0 < b" using ab by (rule quotient_of_denom_pos)
  have q: "q = of_int a / of_int b" using ab by (rule quotient_of_div)
  have a: "0 < a" using pos b unfolding q by (simp add: zero_less_divide_iff)
  define k0 where "k0 = bitlen a - bitlen b"
  from bitlen_window [OF a] bitlen_window [OF b]
  have wa: "(2::rat) powi (bitlen a - 1) \<le> of_int a" "of_int a < (2::rat) powi (bitlen a)"
    and wb: "(2::rat) powi (bitlen b - 1) \<le> of_int b" "of_int b < (2::rat) powi (bitlen b)"
    by simp_all
  have bpos: "(0::rat) < of_int b" using b by simp
  have "(2::rat) powi (k0 - 1) * of_int b < 2 powi (k0 - 1) * 2 powi (bitlen b)"
    using wb(2) by (intro mult_strict_left_mono) simp_all
  also have "\<dots> = 2 powi (bitlen a - 1)"
    by (simp add: k0_def flip: power_int_add)
  also have "\<dots> \<le> of_int a" by (rule wa(1))
  finally have below: "(2::rat) powi (k0 - 1) < q"
    unfolding q using bpos by (simp add: pos_less_divide_eq)
  have "of_int a < (2::rat) powi (bitlen a)" by (rule wa(2))
  also have "\<dots> = 2 powi (k0 + 1) * 2 powi (bitlen b - 1)"
    by (simp add: k0_def flip: power_int_add)
  also have "\<dots> \<le> 2 powi (k0 + 1) * of_int b"
    using wb(1) by (intro mult_left_mono) simp_all
  finally have above: "q < (2::rat) powi (k0 + 1)"
    unfolding q using bpos by (simp add: pos_divide_less_eq)
  have fl: "floor_log2 q = (if 2 powi k0 \<le> q then k0 else k0 - 1)"
    by (simp add: floor_log2_def ab k0_def Let_def)
  show ?thesis
  proof (cases "2 powi k0 \<le> q")
    case True
    from two_powi_exponent_less [OF True hi] two_powi_exponent_less [OF lo above]
    have "k0 = k" by linarith
    with True fl show ?thesis by simp
  next
    case False
    then have "q < 2 powi k0" by simp
    from two_powi_exponent_less [OF lo this] two_powi_exponent_less [OF _ hi, of "k0 - 1"] below
    have "k0 - 1 = k" by linarith
    with False fl show ?thesis by simp
  qed
qed

lemma round_double_eq:
  assumes nz: "q \<noteq> 0"
    and lo: "2 powi (e + 52) \<le> \<bar>q\<bar>" and hi: "\<bar>q\<bar> < 2 powi (e + 53)"
    and e: "- 1074 \<le> e"
    and m: "\<bar>q / 2 powi e - of_int m\<bar> < 1 / 2"
    and fin: "\<bar>of_int m * 2 powi e\<bar> < (2::rat) ^ 1024"
  shows "round_double q = Finite (of_int m * 2 powi e)"
proof -
  have "floor_log2 \<bar>q\<bar> = e + 52"
    using nz lo hi by (intro floor_log2_eq) (simp_all add: add.commute [of 1] add.assoc)
  then have ex: "max (floor_log2 \<bar>q\<bar> - 52) (- 1074) = e" using e by simp
  have r: "round_half_even (q / 2 powi e) = m" using m by (rule round_half_even_eq)
  show ?thesis
    using nz fin by (simp add: round_double_def ex r Let_def)
qed

lemma two_powi_neg: "(2::rat) powi (- numeral n) = 1 / 2 ^ numeral n"
  by (simp add: power_int_def field_simps)

lemma double_12_4: "round_double (62 / 5) = Finite (6980579422424269 / 562949953421312)"
proof -
  have "round_double (62 / 5) = Finite (of_int 6980579422424269 * 2 powi (- 49))"
    by (rule round_double_eq) (simp_all add: two_powi_neg)
  then show ?thesis by (simp add: two_powi_neg)
qed

lemma double_3_1: "round_double (31 / 10) = Finite (6980579422424269 / 2251799813685248)"
proof -
  have "round_double (31 / 10) = Finite (of_int 6980579422424269 * 2 powi (- 51))"
    by (rule round_double_eq) (simp_all add: two_powi_neg)
  then show ?thesis by (simp add: two_powi_neg)
qed

lemma double_sum:
  "round_double (6980579422424269 / 562949953421312 + 6980579422424269 / 2251799813685248)
     = Finite (31 / 2)"
proof -
  have "round_double (6980579422424269 / 562949953421312 + 6980579422424269 / 2251799813685248)
      = Finite (of_int 8725724278030336 * 2 powi (- 49))"
    by (rule round_double_eq) (simp_all add: two_powi_neg)
  then show ?thesis by (simp add: two_powi_neg)
qed

text \<open>Parsing the amounts of the examples.\<close>

lemma powi_neg_numeral: "(x::rat) powi (- numeral n) = 1 / x ^ numeral n"
  by (simp add: power_int_def field_simps)

lemmas float_parse_defs = float_of_string_def strip_def take_sign_def
  lower_def parse_decimal_def digits_value_def scale10_def is_digit_def digit_val_def
  float_space_def powi_neg_numeral Let_def

lemma parse_12_40: "float_of_string ''12.40'' = Inr (round_double (62 / 5))"
  by (simp add: float_parse_defs)

lemma parse_3_10: "float_of_string ''3.10'' = Inr (round_double (31 / 10))"
  by (simp add: float_parse_defs)

lemma parse_m0_3: "float_of_string ''-0.3'' = Inr (round_double (- (3 / 10)))"
  by (simp add: float_parse_defs)

lemma parse_m0_4: "float_of_string ''-0.4'' = Inr (round_double (- (2 / 5)))"
  by (simp add: float_parse_defs)

lemma parse_bad: "float_of_string ''12,40'' = Inl ValueError"
  by (simp add: float_parse_defs)

lemma parse_exp: "float_of_string '' 1_0.5E+1 '' = Inr (round_double 105)"
  by (simp add: float_parse_defs)

lemma double_m0_3: "round_double (- (3 / 10)) = Finite (- (5404319552844595 / 18014398509481984))"
proof -
  have "round_double (- (3 / 10)) = Finite (of_int (- 5404319552844595) * 2 powi (- 54))"
    by (rule round_double_eq) (simp_all add: two_powi_neg)
  then show ?thesis by (simp add: two_powi_neg)
qed

lemma zero_plus: "float_add (Finite 0) (Finite (- (5404319552844595 / 18014398509481984)))
   = Finite (- (5404319552844595 / 18014398509481984))"
proof -
  have "round_double (- (5404319552844595 / 18014398509481984))
      = Finite (of_int (- 5404319552844595) * 2 powi (- 54))"
    by (rule round_double_eq) (simp_all add: two_powi_neg)
  then show ?thesis by (simp add: two_powi_neg)
qed

lemma double_12_4_fixed:
  "round_double (6980579422424269 / 562949953421312) = Finite (6980579422424269 / 562949953421312)"
proof -
  have "round_double (6980579422424269 / 562949953421312)
      = Finite (of_int 6980579422424269 * 2 powi (- 49))"
    by (rule round_double_eq) (simp_all add: two_powi_neg)
  then show ?thesis by (simp add: two_powi_neg)
qed

lemma double_m0_4: "round_double (- (2 / 5)) = Finite (- (3602879701896397 / 9007199254740992))"
proof -
  have "round_double (- (2 / 5)) = Finite (of_int (- 7205759403792794) * 2 powi (- 54))"
    by (rule round_double_eq) (simp_all add: two_powi_neg)
  then show ?thesis by (simp add: two_powi_neg)
qed

lemma double_sum_normal: "round_double (34902897112121345 / 2251799813685248) = Finite (31 / 2)"
proof -
  have "round_double (34902897112121345 / 2251799813685248)
      = Finite (of_int 8725724278030336 * 2 powi (- 49))"
    by (rule round_double_eq) (simp_all add: two_powi_neg)
  then show ?thesis by (simp add: two_powi_neg)
qed

text \<open>
  The separators 28 to 31 are whitespace for \<^verbatim>\<open>str.split\<close> but not for \<^verbatim>\<open>float\<close>;
  the no-break space 160 and the next-line character 133 are whitespace for both.
\<close>

lemma parse_separator:
  "float_of_string (CHR 0x1C # ''1.5'') = Inl ValueError"
  "float_of_string (''1.5'' @ [CHR 0x1F]) = Inl ValueError"
  by (simp_all add: float_parse_defs)

lemma parse_no_break_space:
  "float_of_string (CHR 0xA0 # ''1.5'' @ [CHR 0x85]) = Inr (round_double (3 / 2))"
  by (simp add: float_parse_defs)

section \<open>Aggregation of the response\<close>

text \<open>
  One pass of the loop on a group that has a service name and a decimal amount: the
  entry of the service is set to the ceiling of the amount, and the amount is added to
  the total.
\<close>

lemma loop_body_ok:
  assumes "service_name r = Some s" "decimal_amount r = Some q"
  shows "loop_body r acc =
    Inr \<lparr>Cost = AList.update s \<lceil>q\<rceil> (Cost acc), Total = float_add (Total acc) (Finite q)\<rparr>"
proof -
  from assms(1) obtain k ks where k: "Keys r = k # ks" and s: "s = normalize_service k"
    by (auto simp: service_name_def split: list.splits)
  from assms(2) have a: "amortized_amount r = Inr (Finite q)"
    by (auto simp: decimal_amount_def split: sum.splits pyfloat.splits)
  show ?thesis
    by (simp add: loop_body_def a k s normalize_service_def Let_def)
qed

lemma for_groups_ok:
  assumes "map service_name gs = map Some names" "map decimal_amount gs = map Some qs"
  shows "for_groups gs acc =
    Inr \<lparr>Cost = fold (\<lambda>(s, c). AList.update s c) (zip names (map ceiling qs)) (Cost acc),
         Total = foldl float_add (Total acc) (map Finite qs)\<rparr>"
  using assms
proof (induction gs arbitrary: names qs acc)
  case Nil
  then show ?case by simp
next
  case (Cons r rs)
  from Cons.prems obtain s ns where names: "names = s # ns" and s: "service_name r = Some s"
    and ns: "map service_name rs = map Some ns"
    by (cases names) auto
  from Cons.prems obtain q qs' where qs: "qs = q # qs'" and q: "decimal_amount r = Some q"
    and qs': "map decimal_amount rs = map Some qs'"
    by (cases qs) auto
  show ?case
    by (simp add: loop_body_ok [OF s q] Cons.IH [OF ns qs'] names qs)
qed

lemma aggregate_ok:
  assumes "map service_name gs = map Some names" "map decimal_amount gs = map Some qs"
  shows "aggregate \<lparr>ResultsByTime = \<lparr>Groups = gs\<rparr> # rest\<rparr> =
    Inr \<lparr>Cost = fold (\<lambda>(s, c). AList.update s c) (zip names (map ceiling qs)) [],
         Total = foldl float_add (Finite 0) (map Finite qs)\<rparr>"
  by (simp add: aggregate_def empty_costs_def for_groups_ok [OF assms])

text \<open>Assignments to the dict, one after the other.\<close>

lemma fold_update_fresh:
  assumes "distinct names" "set names \<inter> fst ` set xs = {}" "length names = length cs"
  shows "fold (\<lambda>(s, c). AList.update s c) (zip names cs) xs = xs @ zip names cs"
  using assms
proof (induction names arbitrary: cs xs)
  case Nil
  then show ?case by simp
next
  case (Cons s ns)
  then obtain c cs' where cs: "cs = c # cs'" by (cases cs) auto
  from Cons.prems have fresh: "s \<notin> fst ` set xs" by auto
  then have u: "AList.update s c xs = xs @ [(s, c)]"
    by (induction xs) auto
  have "set ns \<inter> fst ` set (xs @ [(s, c)]) = {}"
    using Cons.prems by auto
  with Cons.IH [where cs = cs' and xs = "xs @ [(s, c)]"] Cons.prems
  show ?case by (simp add: cs u)
qed

lemma map_of_fold_update:
  "map_of (fold (\<lambda>(s, c). AList.update s c) ys xs) = map_of xs ++ map_of (rev ys)"
proof (induction ys arbitrary: xs)
  case Nil
  then show ?case by simp
next
  case (Cons y ys)
  obtain s c where y: "y = (s, c)" by (cases y)
  show ?case
    by (auto simp add: y Cons.IH update_conv' fun_eq_iff map_add_def split: option.splits)
qed

lemma distinct_fold_update:
  "distinct (map fst xs) \<Longrightarrow> distinct (map fst (fold (\<lambda>(s, c). AList.update s c) ys xs))"
proof (induction ys arbitrary: xs)
  case Nil
  then show ?case by simp
next
  case (Cons y ys)
  obtain s c where y: "y = (s, c)" by (cases y)
  show ?case using Cons.prems by (simp add: y Cons.IH distinct_update)
qed

lemma keys_fold_update:
  "fst ` set (fold (\<lambda>(s, c). AList.update s c) ys xs) = fst ` set xs \<union> fst ` set ys"
proof (induction ys arbitrary: xs)
  case Nil
  then show ?case by simp
next
  case (Cons y ys)
  obtain s c where y: "y = (s, c)" by (cases y)
  have "fst ` set (AList.update s c xs) = insert s (fst ` set xs)"
    using dom_update [of s c xs] by (simp add: dom_map_of_conv_image_fst)
  then show ?case by (simp add: y Cons.IH)
qed

lemma map_of_rev_last:
  assumes "i < length names" "length names = length cs" "names ! i \<notin> set (drop (Suc i) names)"
  shows "map_of (rev (zip names cs)) (names ! i) = Some (cs ! i)"
  using assms
proof (induction names arbitrary: cs i)
  case Nil
  then show ?case by simp
next
  case (Cons s ns)
  then obtain c cs' where cs: "cs = c # cs'" by (cases cs) auto
  show ?case
  proof (cases i)
    case 0
    with Cons.prems have "s \<notin> set ns" by simp
    then have "map_of (rev (zip ns cs')) s = None"
      by (auto simp add: map_of_eq_None_iff dest: set_zip_leftD)
    then show ?thesis by (simp add: cs 0 map_add_def)
  next
    case (Suc j)
    with Cons.prems have j: "j < length ns" "length ns = length cs'" "ns ! j \<notin> set (drop (Suc j) ns)"
      by (simp_all add: cs)
    from Cons.IH [OF j] show ?thesis by (simp add: cs Suc map_add_def)
  qed
qed

subsection \<open>The groups of the examples\<close>

lemma priced_name: "service_name (priced ''EC2'' a ns) = Some ''EC2''"
  "service_name (priced ''S3'' a ns) = Some ''S3''"
  "service_name (priced ''Support'' a ns) = Some ''Support''"
  "service_name (priced ''Amazon  EC2'' a ns) = Some ''Amazon_EC2''"
  "service_name (priced ''Amazon EC2'' a ns) = Some ''Amazon_EC2''"
  by (simp_all add: service_name_def priced_def normalize_service_def split_def isspace_def)

lemma priced_amount:
  "decimal_amount (priced s ''12.40'' [''AmortizedCost'']) = Some (6980579422424269 / 562949953421312)"
  "decimal_amount (priced s ''3.10'' [''AmortizedCost'']) = Some (6980579422424269 / 2251799813685248)"
  "decimal_amount (priced s ''-0.3'' [''AmortizedCost'']) = Some (- (5404319552844595 / 18014398509481984))"
  "decimal_amount (priced s ''-0.4'' [''AmortizedCost'']) = Some (- (3602879701896397 / 9007199254740992))"
  by (simp_all add: decimal_amount_def amortized_amount_def priced_def parse_12_40 parse_3_10
      parse_m0_3 parse_m0_4 double_12_4 double_3_1 double_m0_3 double_m0_4)

lemma example_total:
  "foldl float_add (Finite 0)
     (map Finite [6980579422424269 / 562949953421312, 6980579422424269 / 2251799813685248])
   = Finite (31 / 2)"
  by (simp add: double_12_4_fixed double_sum_normal)

lemma example_ceilings:
  "\<lceil>6980579422424269 / 562949953421312 :: rat\<rceil> = 13"
  "\<lceil>6980579422424269 / 2251799813685248 :: rat\<rceil> = 4"
  "\<lceil>- (5404319552844595 / 18014398509481984) :: rat\<rceil> = 0"
  "\<lceil>- (3602879701896397 / 9007199254740992) :: rat\<rceil> = 0"
  by (simp_all add: ceiling_unique)

subsection \<open>Claims about aggregation\<close>

text \<open>
  Claim C4. When the groups have pairwise different service names, aggregation gives
  every service the ceiling of its decimal amount, in the order of the groups, and the
  total is the sum of the unrounded amounts, added one after the other from \<open>0.0\<close>.
  The ceiling is the smallest integer not below the amount, so a credit between \<open>-1\<close>
  and \<open>0\<close> gives \<open>0\<close>. For the groups \<^verbatim>\<open>{EC2, "12.40"}\<close> and \<^verbatim>\<open>{S3, "3.10"}\<close> the costs are
  13 and 4 and the total is 15.5; for \<^verbatim>\<open>{Support, "-0.3"}\<close> the cost is 0 and the
  total goes down by the amount.
\<close>

theorem aggregate_ceiling_and_sum:
  assumes "map service_name gs = map Some names"
    and "map decimal_amount gs = map Some qs"
    and "distinct names"
  shows "aggregate \<lparr>ResultsByTime = \<lparr>Groups = gs\<rparr> # rest\<rparr> =
    Inr \<lparr>Cost = zip names (map ceiling qs),
         Total = foldl float_add (Finite 0) (map Finite qs)\<rparr>"
proof -
  have "length names = length gs" "length qs = length gs"
    using assms(1,2) by (metis length_map)+
  then have "length names = length (map ceiling qs)" by simp
  with assms(3) have "fold (\<lambda>(s, c). AList.update s c) (zip names (map ceiling qs)) []
      = zip names (map ceiling qs)"
    using fold_update_fresh [of names "[]" "map ceiling qs"] by simp
  then show ?thesis by (simp add: aggregate_ok [OF assms(1,2)])
qed

theorem aggregate_ceiling_and_sum_witness:
  "aggregate \<lparr>ResultsByTime = [\<lparr>Groups = [priced ''EC2'' ''12.40'' [''AmortizedCost''],
                                         priced ''S3'' ''3.10'' [''AmortizedCost'']]\<rparr>]\<rparr>
     = Inr \<lparr>Cost = [(''EC2'', 13), (''S3'', 4)], Total = Finite (31 / 2)\<rparr>
   \<and> aggregate \<lparr>ResultsByTime = [\<lparr>Groups = [priced ''Support'' ''-0.3'' [''AmortizedCost'']]\<rparr>]\<rparr>
     = Inr \<lparr>Cost = [(''Support'', 0)],
            Total = Finite (- (5404319552844595 / 18014398509481984))\<rparr>"
proof -
  let ?a = "6980579422424269 / 562949953421312 :: rat"
  let ?b = "6980579422424269 / 2251799813685248 :: rat"
  let ?c = "- (5404319552844595 / 18014398509481984) :: rat"
  have n: "map service_name [priced ''EC2'' ''12.40'' [''AmortizedCost''],
                             priced ''S3'' ''3.10'' [''AmortizedCost'']]
            = map Some [''EC2'', ''S3'']"
    by (simp add: priced_name)
  have q: "map decimal_amount [priced ''EC2'' ''12.40'' [''AmortizedCost''],
                               priced ''S3'' ''3.10'' [''AmortizedCost'']]
            = map Some [?a, ?b]"
    by (simp add: priced_amount)
  have d: "distinct [''EC2'', ''S3'']" by simp
  have n2: "map service_name [priced ''Support'' ''-0.3'' [''AmortizedCost'']] = map Some [''Support'']"
    by (simp add: priced_name)
  have q2: "map decimal_amount [priced ''Support'' ''-0.3'' [''AmortizedCost'']] = map Some [?c]"
    by (simp add: priced_amount)
  have d2: "distinct [''Support'']" by simp
  have t2: "foldl float_add (Finite 0) (map Finite [?c]) = Finite ?c"
    using zero_plus by simp
  have z: "zip [''EC2'', ''S3''] (map ceiling [?a, ?b]) = [(''EC2'', 13), (''S3'', 4)]"
    by (simp add: example_ceilings)
  have z2: "zip [''Support''] (map ceiling [?c]) = [(''Support'', 0)]"
    by (simp add: example_ceilings)
  from aggregate_ceiling_and_sum [OF n q d, of "[]"] aggregate_ceiling_and_sum [OF n2 q2 d2, of "[]"]
  show ?thesis
    unfolding z z2 example_total t2 by (rule conjI)
qed

text \<open>
  Claim C9. When several groups have the same normalised service name, the cost map has
  one entry for the name, holding the ceiling of the amount of the last of these groups,
  while the total is the sum of the amounts of all the groups.
\<close>

theorem duplicate_names_last_wins:
  assumes "map service_name gs = map Some names"
    and "map decimal_amount gs = map Some qs"
  shows "\<exists>costs. aggregate \<lparr>ResultsByTime = \<lparr>Groups = gs\<rparr> # rest\<rparr> = Inr costs
    \<and> distinct (map fst (Cost costs))
    \<and> set (map fst (Cost costs)) = set names
    \<and> (\<forall>i. last_with names i \<longrightarrow> map_of (Cost costs) (names ! i) = Some \<lceil>qs ! i\<rceil>)
    \<and> Total costs = foldl float_add (Finite 0) (map Finite qs)"
proof -
  let ?cs = "map ceiling qs"
  let ?cost = "fold (\<lambda>(s, c). AList.update s c) (zip names ?cs) []"
  have len: "length names = length ?cs"
    using assms by (metis length_map)
  have "map fst (zip names ?cs) = names"
    using len by (rule map_fst_zip)
  then have "fst ` set (zip names ?cs) = set names"
    by (metis list.set_map)
  then have keys: "set (map fst ?cost) = set names"
    using keys_fold_update [of "zip names ?cs" "[]"] by simp
  have dist: "distinct (map fst ?cost)"
    by (rule distinct_fold_update) simp
  have last: "map_of ?cost (names ! i) = Some \<lceil>qs ! i\<rceil>" if "last_with names i" for i
  proof -
    from that have i: "i < length names" "names ! i \<notin> set (drop (Suc i) names)"
      by (simp_all add: last_with_def)
    from map_of_rev_last [OF i(1) len i(2)] i(1) len
    show ?thesis by (simp add: map_of_fold_update)
  qed
  show ?thesis
    using keys dist last by (simp add: aggregate_ok [OF assms])
qed

theorem duplicate_names_last_wins_witness:
  "last_with [''Amazon_EC2'', ''Amazon_EC2''] 1
   \<and> (\<exists>costs. aggregate \<lparr>ResultsByTime =
         [\<lparr>Groups = [priced ''Amazon  EC2'' ''12.40'' [''AmortizedCost''],
                      priced ''Amazon EC2'' ''3.10'' [''AmortizedCost'']]\<rparr>]\<rparr> = Inr costs
       \<and> set (map fst (Cost costs)) = {''Amazon_EC2''}
       \<and> distinct (map fst (Cost costs))
       \<and> map_of (Cost costs) ''Amazon_EC2'' = Some 4
       \<and> Total costs = Finite (31 / 2))"
proof -
  let ?a = "6980579422424269 / 562949953421312 :: rat"
  let ?b = "6980579422424269 / 2251799813685248 :: rat"
  let ?gs = "[priced ''Amazon  EC2'' ''12.40'' [''AmortizedCost''],
              priced ''Amazon EC2'' ''3.10'' [''AmortizedCost'']]"
  let ?names = "[''Amazon_EC2'', ''Amazon_EC2'']"
  have n: "map service_name ?gs = map Some ?names"
    by (simp add: priced_name)
  have q: "map decimal_amount ?gs = map Some [?a, ?b]"
    by (simp add: priced_amount)
  have l: "last_with ?names 1" by (simp add: last_with_def)
  from duplicate_names_last_wins [OF n q, of "[]"] obtain costs where
    a: "aggregate \<lparr>ResultsByTime = [\<lparr>Groups = ?gs\<rparr>]\<rparr> = Inr costs"
    and d: "distinct (map fst (Cost costs))"
    and k: "set (map fst (Cost costs)) = set ?names"
    and m: "\<forall>i. last_with ?names i \<longrightarrow> map_of (Cost costs) (?names ! i) = Some \<lceil>[?a, ?b] ! i\<rceil>"
    and t: "Total costs = foldl float_add (Finite 0) (map Finite [?a, ?b])"
    by blast
  from m l have "map_of (Cost costs) (?names ! 1) = Some \<lceil>[?a, ?b] ! 1\<rceil>" by blast
  then have m1: "map_of (Cost costs) ''Amazon_EC2'' = Some 4"
    by (simp add: example_ceilings)
  from k have k1: "set (map fst (Cost costs)) = {''Amazon_EC2''}" by simp
  from t have t1: "Total costs = Finite (31 / 2)" by (simp only: example_total)
  from l a k1 d m1 t1 show ?thesis by blast
qed

text \<open>
  Claim C3. The request names the configured cost type, but the loop reads the amount
  under the fixed key \<^verbatim>\<open>"AmortizedCost"\<close> (lines 123 and 126 to 128). With the cost type
  \<^verbatim>\<open>UnblendedCost\<close> and a service that answers with the metric it was asked for, no
  amount of the configured cost type is parsed: the method ends with \<^verbatim>\<open>KeyError\<close>.
\<close>

theorem configured_cost_type_not_read:
  "Metrics (cost_request (example_collector\<lparr>cost_type := ''UnblendedCost''\<rparr>)) = [''UnblendedCost'']
   \<and> get_aws_cost two_service_api (example_collector\<lparr>cost_type := ''UnblendedCost''\<rparr>)
       = Inl (KeyError ''AmortizedCost'')"
  by (simp add: cost_request_def get_aws_cost_def two_service_api_def aggregate_def priced_def
      loop_body_def amortized_amount_def example_collector_def)

section \<open>The samples of a collection\<close>

text \<open>The samples that the loop of lines 143 to 151 adds, and the metric they are added to.\<close>

lemma samples_fold:
  "samples (fold (service_sample self) xs m) =
     samples m @ map (\<lambda>(s, c). \<lparr>sample_name = ''aws_cost'',
                               sample_labels = service_labels (project self) s,
                               sample_value = IntValue c\<rparr>) xs"
  by (induction xs arbitrary: m)
    (auto simp: service_sample_def add_sample_def service_labels_def)

lemma fold_keeps_header:
  "metric_name (fold (service_sample self) xs m) = metric_name m
   \<and> documentation (fold (service_sample self) xs m) = documentation m
   \<and> metric_typ (fold (service_sample self) xs m) = metric_typ m"
  by (induction xs arbitrary: m) (auto simp: service_sample_def add_sample_def)

lemma collect_ok:
  assumes "get_aws_cost api self = Inr costs"
  shows "collect api self =
    Inr [\<lparr>metric_name = ''aws_project_cost_as_per_service'',
          documentation = ''Service wise cost for an AWS account'',
          metric_typ = ''gauge'',
          samples = map (\<lambda>(s, c). \<lparr>sample_name = ''aws_cost'',
                                    sample_labels = service_labels (project self) s,
                                    sample_value = IntValue c\<rparr>) (Cost costs)
                    @ [\<lparr>sample_name = ''aws_cost'', sample_labels = total_labels (project self),
                        sample_value = FloatValue (Total costs)\<rparr>]\<rparr>]"
proof -
  let ?base = "\<lparr>metric_name = ''aws_project_cost_as_per_service'',
              documentation = ''Service wise cost for an AWS account'',
              metric_typ = ''gauge'', samples = []\<rparr>"
  let ?filled = "fold (service_sample self) (Cost costs) ?base"
  have h: "metric_name ?filled = ''aws_project_cost_as_per_service''"
    "documentation ?filled = ''Service wise cost for an AWS account''" "metric_typ ?filled = ''gauge''"
    using fold_keeps_header [of self "Cost costs" ?base] by simp_all
  have s: "samples ?filled = map (\<lambda>(s, c). \<lparr>sample_name = ''aws_cost'',
                               sample_labels = service_labels (project self) s,
                               sample_value = IntValue c\<rparr>) (Cost costs)"
    using samples_fold [of self "Cost costs" ?base] by simp
  have "total_sample self (Total costs) ?filled =
      \<lparr>metric_name = ''aws_project_cost_as_per_service'',
       documentation = ''Service wise cost for an AWS account'',
       metric_typ = ''gauge'',
       samples = samples ?filled @ [\<lparr>sample_name = ''aws_cost'', sample_labels = total_labels (project self),
                        sample_value = FloatValue (Total costs)\<rparr>]\<rparr>"
    using h by (cases ?filled) (simp add: total_sample_def add_sample_def total_labels_def)
  then show ?thesis
    by (simp add: collect_def assms s Let_def)
qed

lemma two_service_costs:
  "get_aws_cost two_service_api example_collector
     = Inr \<lparr>Cost = [(''EC2'', 13), (''S3'', 4)], Total = Finite (31 / 2)\<rparr>"
proof -
  let ?gs = "[priced ''EC2'' ''12.40'' [''AmortizedCost''], priced ''S3'' ''3.10'' [''AmortizedCost'']]"
  let ?a = "6980579422424269 / 562949953421312 :: rat"
  let ?b = "6980579422424269 / 2251799813685248 :: rat"
  have n: "map service_name ?gs = map Some [''EC2'', ''S3'']"
    by (simp add: priced_name)
  have q: "map decimal_amount ?gs = map Some [?a, ?b]"
    by (simp add: priced_amount)
  have c: "fold (\<lambda>(s, c). AList.update s c) (zip [''EC2'', ''S3''] (map ceiling [?a, ?b])) []
      = [(''EC2'', 13), (''S3'', 4)]"
    by (simp add: example_ceilings)
  have "get_aws_cost two_service_api example_collector = aggregate \<lparr>ResultsByTime = [\<lparr>Groups = ?gs\<rparr>]\<rparr>"
    by (simp add: get_aws_cost_def two_service_api_def cost_request_def example_collector_def)
  also have "\<dots> = Inr \<lparr>Cost = [(''EC2'', 13), (''S3'', 4)], Total = Finite (31 / 2)\<rparr>"
    unfolding aggregate_ok [OF n q] c example_total ..
  finally show ?thesis .
qed

subsection \<open>Claims about the samples\<close>

text \<open>
  Claim C7. When the query and the aggregation succeed, \<open>collect\<close> yields one metric
  of type gauge. Its samples are one per entry of the cost map, in order, with the labels
  project, service and type \<^verbatim>\<open>individual_service\<close> and the integer cost as value,
  followed by one sample with the labels project and type \<^verbatim>\<open>daily_total\<close> and the
  unrounded total as value: one more sample than the map has services, every one labelled
  with the configured project. Two services give three samples.
\<close>

theorem collect_one_sample_per_service_and_total:
  assumes "get_aws_cost api self = Inr costs"
  shows "\<exists>m. collect api self = Inr [m]
    \<and> metric_name m = ''aws_project_cost_as_per_service''
    \<and> documentation m = ''Service wise cost for an AWS account''
    \<and> metric_typ m = ''gauge''
    \<and> samples m =
        map (\<lambda>(s, c). \<lparr>sample_name = ''aws_cost'',
                        sample_labels = [(''project'', project self), (''service'', s),
                                         (''type'', ''individual_service'')],
                        sample_value = IntValue c\<rparr>) (Cost costs)
        @ [\<lparr>sample_name = ''aws_cost'',
            sample_labels = [(''project'', project self), (''type'', ''daily_total'')],
            sample_value = FloatValue (Total costs)\<rparr>]
    \<and> length (samples m) = length (Cost costs) + 1
    \<and> list_all (\<lambda>s. map_of (sample_labels s) ''project'' = Some (project self)) (samples m)"
proof -
  have "list_all (\<lambda>s. map_of (sample_labels s) ''project'' = Some (project self))
      (map (\<lambda>(s, c). \<lparr>sample_name = ''aws_cost'',
                        sample_labels = service_labels (project self) s,
                        sample_value = IntValue c\<rparr>) (Cost costs))"
    by (induction "Cost costs") (auto simp: list_all_iff service_labels_def)
  then show ?thesis
    unfolding collect_ok [OF assms]
    by (simp add: service_labels_def total_labels_def)
qed

theorem collect_one_sample_per_service_and_total_witness:
  "get_aws_cost two_service_api example_collector
     = Inr \<lparr>Cost = [(''EC2'', 13), (''S3'', 4)], Total = Finite (31 / 2)\<rparr>
   \<and> collect two_service_api example_collector =
     Inr [\<lparr>metric_name = ''aws_project_cost_as_per_service'',
           documentation = ''Service wise cost for an AWS account'',
           metric_typ = ''gauge'',
           samples =
             [\<lparr>sample_name = ''aws_cost'',
               sample_labels = [(''project'', ''acme''), (''service'', ''EC2''),
                                (''type'', ''individual_service'')],
               sample_value = IntValue 13\<rparr>,
              \<lparr>sample_name = ''aws_cost'',
               sample_labels = [(''project'', ''acme''), (''service'', ''S3''),
                                (''type'', ''individual_service'')],
               sample_value = IntValue 4\<rparr>,
              \<lparr>sample_name = ''aws_cost'',
               sample_labels = [(''project'', ''acme''), (''type'', ''daily_total'')],
               sample_value = FloatValue (Finite (31 / 2))\<rparr>]\<rparr>]"
proof -
  let ?costs = "\<lparr>Cost = [(''EC2'', 13), (''S3'', 4)], Total = Finite (31 / 2)\<rparr>"
  have g: "get_aws_cost two_service_api example_collector = Inr ?costs"
    by (rule two_service_costs)
  from collect_one_sample_per_service_and_total [OF g] obtain m where
    c: "collect two_service_api example_collector = Inr [m]"
    and s: "samples m =
        map (\<lambda>(s, c). \<lparr>sample_name = ''aws_cost'',
                        sample_labels = [(''project'', project example_collector), (''service'', s),
                                         (''type'', ''individual_service'')],
                        sample_value = IntValue c\<rparr>) (Cost ?costs)
        @ [\<lparr>sample_name = ''aws_cost'',
            sample_labels = [(''project'', project example_collector), (''type'', ''daily_total'')],
            sample_value = FloatValue (Total ?costs)\<rparr>]"
    and h: "metric_name m = ''aws_project_cost_as_per_service''" "metric_typ m = ''gauge''"
    and d: "documentation m = ''Service wise cost for an AWS account''"
    by blast
  have "m = \<lparr>metric_name = ''aws_project_cost_as_per_service'',
           documentation = ''Service wise cost for an AWS account'',
           metric_typ = ''gauge'', samples = samples m\<rparr>"
    using h d by (cases m) simp
  with c s g show ?thesis
    by (simp add: example_collector_def)
qed

text \<open>
  Claim C10. When the query succeeds and the first result has no group, \<open>collect\<close>
  yields the metric with exactly one sample, the daily total, whose value is \<open>0.0\<close>.
\<close>

theorem empty_groups_one_total_sample:
  assumes "api (ce self) (cost_request self) = Inr resp"
    and "ResultsByTime resp = r0 # rest"
    and "Groups r0 = []"
  shows "collect api self =
    Inr [\<lparr>metric_name = ''aws_project_cost_as_per_service'',
          documentation = ''Service wise cost for an AWS account'',
          metric_typ = ''gauge'',
          samples = [\<lparr>sample_name = ''aws_cost'',
                      sample_labels = [(''project'', project self), (''type'', ''daily_total'')],
                      sample_value = FloatValue (Finite 0)\<rparr>]\<rparr>]"
proof -
  have "get_aws_cost api self = Inr empty_costs"
    using assms by (simp add: get_aws_cost_def aggregate_def)
  from collect_ok [OF this] show ?thesis
    by (simp add: empty_costs_def total_labels_def)
qed

theorem empty_groups_one_total_sample_witness:
  "empty_api (ce example_collector) (cost_request example_collector)
     = Inr \<lparr>ResultsByTime = [\<lparr>Groups = []\<rparr>]\<rparr>
   \<and> collect empty_api example_collector =
     Inr [\<lparr>metric_name = ''aws_project_cost_as_per_service'',
           documentation = ''Service wise cost for an AWS account'',
           metric_typ = ''gauge'',
           samples = [\<lparr>sample_name = ''aws_cost'',
                       sample_labels = [(''project'', ''acme''), (''type'', ''daily_total'')],
                       sample_value = FloatValue (Finite 0)\<rparr>]\<rparr>]"
  using empty_groups_one_total_sample [of empty_api example_collector
      "\<lparr>ResultsByTime = [\<lparr>Groups = []\<rparr>]\<rparr>" "\<lparr>Groups = []\<rparr>" "[]"]
  by (simp add: empty_api_def example_collector_def)

text \<open>
  Claim C2. The specification says that a failed query makes \<open>collect\<close> emit zero
  samples without passing the failure on. The source has no handler: when the call of the
  billing API raises, \<open>collect\<close> ends with the same exception, before its only
  \<^verbatim>\<open>yield\<close>. No sample is emitted, and the failure reaches the caller. The example
  after the theorem and its instance is a throttled query: the result is the
  exception, not an empty list of metrics.
\<close>

theorem query_failure_propagates:
  assumes "api (ce self) (cost_request self) = Inl e"
  shows "collect api self = Inl e"
  using assms by (simp add: collect_def get_aws_cost_def)

theorem query_failure_propagates_witness:
  "throttled_api (ce example_collector) (cost_request example_collector)
     = Inl (ClientError ''ThrottlingException'')
   \<and> collect throttled_api example_collector = Inl (ClientError ''ThrottlingException'')"
  using query_failure_propagates [of throttled_api example_collector "ClientError ''ThrottlingException''"]
  by (simp add: throttled_api_def)

theorem query_failure_not_swallowed:
  "collect throttled_api example_collector = Inl (ClientError ''ThrottlingException'')
   \<and> collect throttled_api example_collector \<noteq> Inr []"
  by (simp add: collect_def get_aws_cost_def throttled_api_def)

section \<open>Construction and startup\<close>

text \<open>The window of the examples, and the collector that construction yields.\<close>

lemma example_window:
  "get_time_range example_now = Inr \<lparr>Start = ''2024-02-29'', End = ''2024-03-01''\<rparr>"
proof -
  let ?s = "\<lparr>year = 2024, month = 2, day = 29, hour = 0, minute = 0, second = 0,
    microsecond = 0\<rparr>"
  let ?e = "\<lparr>year = 2024, month = 3, day = 1, hour = 0, minute = 0, second = 0,
    microsecond = 0\<rparr>"
  have wb: "window_bounds example_now = Inr (?s, ?e)"
    by (simp add: window_bounds_def datetime_ymd_def minus_one_day_def valid_date_def
        days_in_month_def is_leap_def example_now_def)
  have fs: "strftime_Ymd ?s = ''2024-02-29''" and fe: "strftime_Ymd ?e = ''2024-03-01''"
    by code_simp+
  show ?thesis by (simp add: get_time_range_def wb fs fe)
qed


lemma example_init:
  "collector_init example_env ''acme'' ''arn:aws:iam::123:role/x'' () ''AmortizedCost'' ''eu-west-1''
     = ([AssumeRole ''arn:aws:iam::123:role/x'' ''inv_master'', SetupDefaultSession example_session],
        Inr example_collector)"
  by (simp add: collector_init_def switch_to_client_account_def example_env_def granting_sts_def
      example_credentials_def example_window example_session_def example_collector_def
      ready_client_def Let_def)


subsection \<open>Claim about the time of the window\<close>




subsection \<open>Claim about the order of startup\<close>

text \<open>
  The events of the constructor are those of the role switch, or none when the client
  of the token service cannot be created.
\<close>

lemma switch_events:
  "fst (switch_to_client_account env arn reg) = [AssumeRole arn ''inv_master'']
   \<or> (\<exists>s. fst (switch_to_client_account env arn reg)
            = [AssumeRole arn ''inv_master'', SetupDefaultSession s])"
  by (simp add: switch_to_client_account_def Let_def split: sum.splits)

lemma init_events:
  "fst (collector_init env proj arn flt ctype reg) =
     (case client env ''sts'' of
        Some e \<Rightarrow> []
      | None \<Rightarrow> fst (switch_to_client_account env arn reg))"
  by (simp add: collector_init_def split: prod.splits sum.splits option.splits)

lemma main_events:
  "fst (main env config) = []
   \<or> (\<exists>rest. fst (main env config) = StartHttpServer (config_port config) # rest
         \<and> \<not> list_ex is_start rest \<and> length (filter is_assume rest) \<le> 1)"
proof (cases "start_http_server env (config_port config)")
  case (Some e)
  then show ?thesis by (simp add: main_def)
next
  case None
  let ?init = "collector_init env (config_project config) (config_role_arn config)
                  (config_filter config) (config_cost_type config) (config_region config)"
  let ?a = "AssumeRole (config_role_arn config) ''inv_master''"
  have m: "fst (main env config) = StartHttpServer (config_port config) # fst ?init
      \<or> fst (main env config) = StartHttpServer (config_port config) # fst ?init @ [Register]"
    using None by (simp add: main_def split: prod.splits sum.splits)
  from switch_events [of env "config_role_arn config" "config_region config"]
  have "fst ?init = [] \<or> fst ?init = [?a] \<or> (\<exists>s. fst ?init = [?a, SetupDefaultSession s])"
    by (auto simp: init_events split: option.splits)
  with m show ?thesis by auto
qed

text \<open>
  Claim C5. The specification says that the role is assumed before the HTTP server
  starts. In the source the server is started on line 183 and the collector, whose
  constructor assumes the role, is constructed after it on line 186. So in every run of
  the main program no role is assumed and no session is set up before the server
  starts, and the role is assumed at most once. When the server starts and the client
  of the token service is created, what happens to the outside world begins with the
  start of the server, followed by the one call of \<^verbatim>\<open>assume_role\<close>; when that call
  fails, no session is set up, nothing is registered, and the main program ends with
  that failure. The example after the theorem and its instance is the sequence of events
  of a startup that succeeds.
\<close>

theorem role_assumed_after_server_start:
  "\<not> assumed_before_server (fst (main env config))
   \<and> \<not> session_before_server (fst (main env config))
   \<and> length (filter is_assume (fst (main env config))) \<le> 1
   \<and> (start_http_server env (config_port config) = None \<and> client env ''sts'' = None \<longrightarrow>
        (\<exists>rest. fst (main env config)
            = StartHttpServer (config_port config)
              # AssumeRole (config_role_arn config) ''inv_master'' # rest
          \<and> \<not> list_ex is_assume rest \<and> \<not> list_ex is_start rest)
        \<and> (\<forall>e. assume_role env (config_role_arn config) ''inv_master'' = Inl e \<longrightarrow>
              main env config
                = ([StartHttpServer (config_port config),
                    AssumeRole (config_role_arn config) ''inv_master''], Inl e)))"
proof -
  let ?init = "collector_init env (config_project config) (config_role_arn config)
                  (config_filter config) (config_cost_type config) (config_region config)"
  let ?a = "AssumeRole (config_role_arn config) ''inv_master''"
  from main_events [of env config]
  have before: "\<not> assumed_before_server (fst (main env config))"
    "\<not> session_before_server (fst (main env config))"
    and once: "length (filter is_assume (fst (main env config))) \<le> 1"
    by (auto simp: assumed_before_server_def session_before_server_def)
  have started: "(\<exists>rest. fst (main env config) = StartHttpServer (config_port config) # ?a # rest
          \<and> \<not> list_ex is_assume rest \<and> \<not> list_ex is_start rest)
        \<and> (\<forall>e. assume_role env (config_role_arn config) ''inv_master'' = Inl e \<longrightarrow>
              main env config = ([StartHttpServer (config_port config), ?a], Inl e))"
    if p: "start_http_server env (config_port config) = None" and c: "client env ''sts'' = None"
  proof -
    have m: "fst (main env config) = StartHttpServer (config_port config) # fst ?init
        \<or> fst (main env config) = StartHttpServer (config_port config) # fst ?init @ [Register]"
      using p by (simp add: main_def split: prod.splits sum.splits)
    from switch_events [of env "config_role_arn config" "config_region config"]
    have i: "fst ?init = [?a] \<or> (\<exists>s. fst ?init = [?a, SetupDefaultSession s])"
      by (simp add: init_events c)
    from m i have shape: "\<exists>rest. fst (main env config)
            = StartHttpServer (config_port config) # ?a # rest
          \<and> \<not> list_ex is_assume rest \<and> \<not> list_ex is_start rest"
      by auto
    have "main env config = ([StartHttpServer (config_port config), ?a], Inl e)"
      if "assume_role env (config_role_arn config) ''inv_master'' = Inl e" for e
      using p c that by (simp add: main_def collector_init_def switch_to_client_account_def)
    with shape show ?thesis by blast
  qed
  from before once started show ?thesis by blast
qed

theorem role_assumed_after_server_start_witness:
  "start_http_server example_env (config_port example_config) = None
   \<and> client example_env ''sts'' = None
   \<and> fst (main example_env example_config)
       = [StartHttpServer 4298, AssumeRole ''arn:aws:iam::123:role/x'' ''inv_master'',
          SetupDefaultSession example_session, Register]
   \<and> \<not> assumed_before_server (fst (main example_env example_config))
   \<and> assume_role denied_env (config_role_arn example_config) ''inv_master''
       = Inl (ClientError ''AccessDenied'')
   \<and> main denied_env example_config
       = ([StartHttpServer 4298, AssumeRole ''arn:aws:iam::123:role/x'' ''inv_master''],
          Inl (ClientError ''AccessDenied''))"
proof -
  have p: "start_http_server example_env (config_port example_config) = None"
    "start_http_server denied_env (config_port example_config) = None"
    by (simp_all add: example_env_def denied_env_def free_port_def)
  have k: "client example_env ''sts'' = None" "client denied_env ''sts'' = None"
    by (simp_all add: example_env_def denied_env_def ready_client_def)
  have d: "assume_role denied_env (config_role_arn example_config) ''inv_master''
       = Inl (ClientError ''AccessDenied'')"
    by (simp add: denied_env_def denying_sts_def)
  have t: "fst (main example_env example_config)
       = [StartHttpServer 4298, AssumeRole ''arn:aws:iam::123:role/x'' ''inv_master'',
          SetupDefaultSession example_session, Register]"
    using p(1) by (simp add: main_def example_config_def example_init)
  have c: "config_port example_config = 4298"
    "config_role_arn example_config = ''arn:aws:iam::123:role/x''"
    by (simp_all add: example_config_def)
  from role_assumed_after_server_start [of example_env example_config]
  have n: "\<not> assumed_before_server (fst (main example_env example_config))" by blast
  from role_assumed_after_server_start [of denied_env example_config] p(2) k(2) d
  have f: "main denied_env example_config
       = ([StartHttpServer (config_port example_config),
           AssumeRole (config_role_arn example_config) ''inv_master''],
          Inl (ClientError ''AccessDenied''))" by blast
  from p(1) k(1) t n d f show ?thesis unfolding c by blast
qed

theorem server_started_before_role_assumed:
  "fst (main example_env example_config)
       = [StartHttpServer 4298, AssumeRole ''arn:aws:iam::123:role/x'' ''inv_master'',
          SetupDefaultSession example_session, Register]
   \<and> \<not> assumed_before_server (fst (main example_env example_config))"
proof -
  have t: "fst (main example_env example_config)
       = [StartHttpServer 4298, AssumeRole ''arn:aws:iam::123:role/x'' ''inv_master'',
          SetupDefaultSession example_session, Register]"
  proof -
    have "start_http_server example_env (config_port example_config) = None"
      by (simp add: example_env_def free_port_def)
    then show ?thesis by (simp add: main_def example_config_def example_init)
  qed
  show ?thesis unfolding t by (simp add: assumed_before_server_def)
qed

end
